theory Spec2Isabelle
  imports Main
begin

section \<open>Values, JavaScript maps and the data model\<close>

text \<open>
  The server (\<^verbatim>\<open>src/server-production.js\<close>) reads its inputs from parsed JSON, so the
  fields it reads are dynamically typed. \<open>jsval\<close> is what such a field can hold:
  \<open>undefined\<close> (a missing field), \<open>null\<close>, a boolean, a number, a string, or an array or
  object, of which only its reference matters here (\<open>===\<close> and \<open>Map\<close> keys compare
  objects by reference). Numbers are whole numbers: the server never computes with them,
  it only tests them against zero and asks for their type. On these values \<open>===\<close> is
  the equality of HOL.

  \<open>Ref\<close> stands for the arrays and objects that convert to a string, as a plain object
  and an array of such values do. The template literals of \<open>Logger\<close> convert the identity
  they interpolate, and for an object that does not convert (one to which the JSON text
  gives a \<open>toString\<close> field that is no function) they throw: such an object is not a
  value of \<open>jsval\<close>, and the model says nothing of a message that carries one as its
  identity.
\<close>

datatype jsval = Undef | Null | JBool bool | Num int | Str string | Ref nat

text \<open>\<open>Boolean(v)\<close>, and the test that \<open>if (v)\<close>, \<open>!v\<close> and \<open>v || w\<close> make.\<close>

fun truthy :: "jsval \<Rightarrow> bool" where
  "truthy Undef = False"
| "truthy Null = False"
| "truthy (JBool b) = b"
| "truthy (Num n) = (n \<noteq> 0)"
| "truthy (Str s) = (s \<noteq> [])"
| "truthy (Ref r) = True"

definition js_or :: "jsval \<Rightarrow> jsval \<Rightarrow> jsval" where
  "js_or v w = (if truthy v then v else w)"

text \<open>\<open>typeof v === 'number'\<close>\<close>

fun is_number :: "jsval \<Rightarrow> bool" where
  "is_number (Num n) = True"
| "is_number v = False"

text \<open>
  A JavaScript \<open>Map\<close> keeps its entries in insertion order: \<open>set\<close> on a key that is
  present replaces the value in place, \<open>set\<close> on a new key appends, \<open>delete\<close> removes
  the entry. It is modelled as an association list.
\<close>

fun map_set :: "'k \<Rightarrow> 'v \<Rightarrow> ('k \<times> 'v) list \<Rightarrow> ('k \<times> 'v) list" where
  "map_set k v [] = [(k, v)]"
| "map_set k v (e # es) = (if fst e = k then (k, v) # es else e # map_set k v es)"

definition map_delete :: "'k \<Rightarrow> ('k \<times> 'v) list \<Rightarrow> ('k \<times> 'v) list" where
  "map_delete k es = filter (\<lambda>e. fst e \<noteq> k) es"

fun map_get :: "'k \<Rightarrow> ('k \<times> 'v) list \<Rightarrow> 'v option" where
  "map_get k [] = None"
| "map_get k (e # es) = (if fst e = k then Some (snd e) else map_get k es)"

text \<open>A connection is the handle \<open>ws\<close> of a WebSocket; \<open>Date.now()\<close> is a whole number
  of milliseconds.\<close>

type_synonym conn = nat

record client_data =
  gamertag :: jsval
  joinedAt :: int
  lastActivity :: int
  messageCount :: int

record ptt_state =
  ptt_isTalking :: jsval
  isMuted :: jsval

record voice_state =
  isTalking :: jsval
  volume :: jsval

record rate_limit =
  count :: int
  resetAt :: int

text \<open>
  A player record of the body of \<open>POST /minecraft-data\<close>, as the handler reads it:
  \<open>player?.name\<close> and the three fields of \<open>player?.data || {}\<close>. A field that is
  missing, also because the record or its \<open>data\<close> is missing, is \<open>Undef\<close>.
\<close>

record player =
  name :: jsval
  data_isTalking :: jsval
  data_isMuted :: jsval
  data_voiceVolume :: jsval

text \<open>The request body: \<open>players\<close> is \<open>None\<close> when \<open>req.body.players\<close> is not an array.\<close>

record body =
  players :: "player list option"

text \<open>The fields of \<open>StateManager\<close>. \<open>lastCleanup\<close>, which is written and never read, is
  left out.\<close>

record state_manager =
  minecraftData :: "body option"
  clients :: "(conn \<times> client_data) list"
  pttStates :: "(jsval \<times> ptt_state) list"
  voiceStates :: "(jsval \<times> voice_state) list"
  rateLimits :: "(conn \<times> rate_limit) list"

definition RATE_LIMIT_WINDOW :: int where
  "RATE_LIMIT_WINDOW = 1000"

definition RATE_LIMIT_MAX :: int where
  "RATE_LIMIT_MAX = 50"

definition CLIENT_TIMEOUT :: int where
  "CLIENT_TIMEOUT = 60000"

text \<open>\<open>CONFIG.MAX_CONNECTIONS\<close> comes from the environment (200 by default): it is the
  parameter \<open>mx\<close> of the functions that read it.\<close>

section \<open>StateManager\<close>

definition new_StateManager :: state_manager where
  "new_StateManager =
     \<lparr>minecraftData = None, clients = [], pttStates = [], voiceStates = [], rateLimits = []\<rparr>"

datatype error = Server_at_capacity | Gamertag_already_in_use

fun message :: "error \<Rightarrow> string" where
  "message Server_at_capacity = ''Server at capacity''"
| "message Gamertag_already_in_use = ''Gamertag already in use''"

text \<open>The loop of \<open>isGamertagTaken\<close> over \<open>this.clients.entries()\<close>.\<close>

fun taken_in :: "jsval \<Rightarrow> (conn \<times> client_data) list \<Rightarrow> bool" where
  "taken_in g [] = False"
| "taken_in g (e # es) = (if gamertag (snd e) = g then True else taken_in g es)"

definition isGamertagTaken :: "jsval \<Rightarrow> state_manager \<Rightarrow> bool" where
  "isGamertagTaken g s = taken_in g (clients s)"

definition getParticipants :: "state_manager \<Rightarrow> jsval list" where
  "getParticipants s = map (\<lambda>e. gamertag (snd e)) (clients s)"

text \<open>\<open>addClient\<close> throws \<open>Error('Server at capacity')\<close> or
  \<open>Error('Gamertag already in use')\<close>: the error is the left summand.\<close>

definition addClient :: "int \<Rightarrow> int \<Rightarrow> conn \<Rightarrow> jsval \<Rightarrow> state_manager \<Rightarrow> error + state_manager" where
  "addClient mx now ws g s =
     (if int (length (clients s)) \<ge> mx then Inl Server_at_capacity
      else if isGamertagTaken g s then Inl Gamertag_already_in_use
      else Inr (s\<lparr>clients := map_set ws
                     \<lparr>gamertag = g, joinedAt = now, lastActivity = now, messageCount = 0\<rparr>
                     (clients s),
                  pttStates := map_set g \<lparr>ptt_isTalking = JBool True, isMuted = JBool False\<rparr>
                     (pttStates s),
                  voiceStates := map_set g \<lparr>isTalking = JBool False, volume = Num 0\<rparr>
                     (voiceStates s)\<rparr>))"

definition removeClient :: "conn \<Rightarrow> state_manager \<Rightarrow> state_manager" where
  "removeClient ws s =
     (case map_get ws (clients s) of
        None \<Rightarrow> s
      | Some clientData \<Rightarrow>
          s\<lparr>pttStates := map_delete (gamertag clientData) (pttStates s),
            voiceStates := map_delete (gamertag clientData) (voiceStates s),
            rateLimits := map_delete ws (rateLimits s),
            clients := map_delete ws (clients s)\<rparr>)"

text \<open>\<open>checkRateLimit\<close> returns whether the message is allowed, and stores the window.\<close>

definition checkRateLimit :: "int \<Rightarrow> conn \<Rightarrow> state_manager \<Rightarrow> bool \<times> state_manager" where
  "checkRateLimit now ws s =
     (let limit = (case map_get ws (rateLimits s) of
                     Some l \<Rightarrow> l
                   | None \<Rightarrow> \<lparr>count = 0, resetAt = now + RATE_LIMIT_WINDOW\<rparr>);
          limit' = (if now > resetAt limit
                    then limit\<lparr>count := 1, resetAt := now + RATE_LIMIT_WINDOW\<rparr>
                    else limit\<lparr>count := count limit + 1\<rparr>)
      in (count limit' \<le> RATE_LIMIT_MAX, s\<lparr>rateLimits := map_set ws limit' (rateLimits s)\<rparr>))"

definition updateActivity :: "int \<Rightarrow> conn \<Rightarrow> state_manager \<Rightarrow> state_manager" where
  "updateActivity now ws s =
     (case map_get ws (clients s) of
        None \<Rightarrow> s
      | Some client \<Rightarrow>
          s\<lparr>clients := map_set ws
               (client\<lparr>lastActivity := now, messageCount := messageCount client + 1\<rparr>)
               (clients s)\<rparr>)"

text \<open>The scan of the signalling branch for the connection registered under an identity:
  the first entry of \<open>clients\<close> whose gamertag is the target.\<close>

fun findConnection :: "jsval \<Rightarrow> (conn \<times> client_data) list \<Rightarrow> conn option" where
  "findConnection g [] = None"
| "findConnection g (e # es) = (if gamertag (snd e) = g then Some (fst e) else findConnection g es)"

section \<open>Sockets, messages and the broadcast helpers\<close>

text \<open>
  The parsed body of an inbound WebSocket message, \<open>data\<close>: the fields the handler
  reads. Other fields of a signalling message travel with it unread.
\<close>

record envelope =
  msg_type :: jsval
  msg_gamertag :: jsval
  msg_isTalking :: jsval
  msg_isMuted :: jsval
  msg_volume :: jsval
  msg_to :: jsval
  msg_from :: jsval

text \<open>
  What arrives: a text that \<open>JSON.parse\<close> rejects, the text \<open>null\<close> (reading
  \<open>data.type\<close> then throws), or a value whose fields can be read.
\<close>

datatype inbound = Unparsable | Parsed_null | Parsed envelope

text \<open>The objects the server serialises and sends, by their \<open>type\<close> field.\<close>

datatype out_msg =
    Error_msg string
  | Participants_list "jsval list"
  | Join_evt jsval
  | Leave_evt jsval
  | Ptt_update jsval jsval jsval
  | Relay envelope
  | Minecraft_update body "((jsval \<times> ptt_state) list \<times> (jsval \<times> voice_state) list) option"

text \<open>The calls of \<open>Logger\<close>, each with the identity its text interpolates.\<close>

datatype log_entry =
    Rate_limit_exceeded jsval
  | Joined jsval
  | Join_failed jsval error
  | Left jsval
  | Invalid_signaling
  | Message_processing_error jsval
  | Disconnected jsval
  | Client_timeout jsval

text \<open>
  A socket of \<open>wss.clients\<close>: its \<open>readyState\<close> (1 is OPEN, 2 CLOSING, 3 CLOSED), the
  messages handed to its \<open>send\<close> in order, the code and reason of the \<open>close\<close> call
  that closed it, and the variable \<open>gamertag\<close> of its connection handler's closure
  (\<open>null\<close> at first). The model stops at the calls into the \<open>ws\<close> library: \<open>send\<close>
  records the message and does not throw.
\<close>

record socket =
  readyState :: nat
  sent :: "out_msg list"
  closed_with :: "(nat \<times> string) option"
  gamertag_var :: jsval

record server =
  sm :: state_manager
  wss_clients :: "(conn \<times> socket) list"
  logged :: "log_entry list"

definition socket_of :: "conn \<Rightarrow> server \<Rightarrow> socket option" where
  "socket_of ws srv = map_get ws (wss_clients srv)"

text \<open>The value of the closure's \<open>gamertag\<close> for the socket \<open>ws\<close>.\<close>

definition closure_gamertag :: "conn \<Rightarrow> server \<Rightarrow> jsval" where
  "closure_gamertag ws srv = (case socket_of ws srv of Some k \<Rightarrow> gamertag_var k | None \<Rightarrow> Null)"

definition on_socket :: "conn \<Rightarrow> (socket \<Rightarrow> socket) \<Rightarrow> (conn \<times> socket) list \<Rightarrow> (conn \<times> socket) list" where
  "on_socket ws f cs = map (\<lambda>e. if fst e = ws then (fst e, f (snd e)) else e) cs"

definition ws_send :: "conn \<Rightarrow> out_msg \<Rightarrow> server \<Rightarrow> server" where
  "ws_send ws m srv =
     srv\<lparr>wss_clients := on_socket ws (\<lambda>k. k\<lparr>sent := sent k @ [m]\<rparr>) (wss_clients srv)\<rparr>"

text \<open>\<open>ws.close(code, reason)\<close> starts the closing handshake of an open socket.\<close>

definition ws_close :: "conn \<Rightarrow> nat \<Rightarrow> string \<Rightarrow> server \<Rightarrow> server" where
  "ws_close ws code reason srv =
     srv\<lparr>wss_clients := on_socket ws
            (\<lambda>k. if readyState k = 1
                  then k\<lparr>readyState := 2, closed_with := Some (code, reason)\<rparr> else k)
            (wss_clients srv)\<rparr>"

definition set_gamertag :: "conn \<Rightarrow> jsval \<Rightarrow> server \<Rightarrow> server" where
  "set_gamertag ws g srv =
     srv\<lparr>wss_clients := on_socket ws (\<lambda>k. k\<lparr>gamertag_var := g\<rparr>) (wss_clients srv)\<rparr>"

definition log_call :: "log_entry \<Rightarrow> server \<Rightarrow> server" where
  "log_call l srv = srv\<lparr>logged := logged srv @ [l]\<rparr>"

definition broadcast :: "conn \<Rightarrow> out_msg \<Rightarrow> server \<Rightarrow> server" where
  "broadcast senderWs m srv =
     srv\<lparr>wss_clients :=
           map (\<lambda>e. if fst e \<noteq> senderWs \<and> readyState (snd e) = 1
                    then (fst e, (snd e)\<lparr>sent := sent (snd e) @ [m]\<rparr>) else e)
               (wss_clients srv)\<rparr>"

definition broadcastToAll :: "out_msg \<Rightarrow> server \<Rightarrow> server" where
  "broadcastToAll m srv =
     srv\<lparr>wss_clients :=
           map (\<lambda>e. if readyState (snd e) = 1
                    then (fst e, (snd e)\<lparr>sent := sent (snd e) @ [m]\<rparr>) else e)
               (wss_clients srv)\<rparr>"

section \<open>The message handler\<close>

text \<open>
  The branches of \<open>ws.on("message")\<close> after \<open>JSON.parse\<close>, in the order of the source.
  A message of no known type falls through all of them. The calls of \<open>Logger\<close> do not
  throw: every value of \<open>jsval\<close> converts to a string.
\<close>

definition dispatch :: "int \<Rightarrow> int \<Rightarrow> conn \<Rightarrow> envelope \<Rightarrow> server \<Rightarrow> server" where
  "dispatch mx now ws d srv =
     (if msg_type d = Str ''join'' then
        (case addClient mx now ws (msg_gamertag d) (sm srv) of
           Inr s' \<Rightarrow>
             (let srv1 = set_gamertag ws (msg_gamertag d) (srv\<lparr>sm := s'\<rparr>);
                  srv2 = log_call (Joined (msg_gamertag d)) srv1;
                  srv3 = ws_send ws (Participants_list (getParticipants (sm srv2))) srv2;
                  srv4 = broadcast ws (Join_evt (msg_gamertag d)) srv3
              in broadcastToAll (Participants_list (getParticipants (sm srv4))) srv4)
         | Inl e \<Rightarrow>
             (let srv1 = log_call (Join_failed (msg_gamertag d) e) srv;
                  srv2 = ws_send ws (Error_msg (message e)) srv1
              in ws_close ws 1008 (message e) srv2))
      else if msg_type d = Str ''leave'' then
        (let g = closure_gamertag ws srv;
             srv1 = srv\<lparr>sm := removeClient ws (sm srv)\<rparr>;
             srv2 = log_call (Left g) srv1
         in broadcast ws (Leave_evt g) srv2)
      else if msg_type d = Str ''voice-detection'' then
        srv\<lparr>sm := (sm srv)\<lparr>voiceStates :=
               map_set (msg_gamertag d)
                 \<lparr>isTalking = msg_isTalking d, volume = js_or (msg_volume d) (Num 0)\<rparr>
                 (voiceStates (sm srv))\<rparr>\<rparr>
      else if msg_type d = Str ''ptt-status'' then
        (let srv1 = srv\<lparr>sm := (sm srv)\<lparr>pttStates :=
                      map_set (msg_gamertag d)
                        \<lparr>ptt_isTalking = msg_isTalking d, isMuted = msg_isMuted d\<rparr>
                        (pttStates (sm srv))\<rparr>\<rparr>
         in broadcastToAll (Ptt_update (msg_gamertag d) (msg_isTalking d) (msg_isMuted d)) srv1)
      else if msg_type d \<in> {Str ''offer'', Str ''answer'', Str ''ice-candidate''} then
        (if \<not> truthy (msg_to d) \<or> \<not> truthy (msg_from d) then log_call Invalid_signaling srv
         else (case findConnection (msg_to d) (clients (sm srv)) of
                 None \<Rightarrow> srv
               | Some targetWs \<Rightarrow>
                   (case socket_of targetWs srv of
                      None \<Rightarrow> srv
                    | Some k \<Rightarrow> if readyState k = 1 then ws_send targetWs (Relay d) srv else srv)))
      else if msg_type d = Str ''heartbeat'' then srv
      else if msg_type d = Str ''request-participants'' then
        ws_send ws (Participants_list (getParticipants (sm srv))) srv
      else srv)"

text \<open>
  \<open>ws.on("message")\<close>: the rate limit, the activity update, \<open>JSON.parse\<close>, the
  branches; the \<open>catch\<close> of the handler logs what \<open>JSON.parse\<close> or the read of
  \<open>data.type\<close> throws. One reading of the clock serves the whole call.
\<close>

definition on_message :: "int \<Rightarrow> int \<Rightarrow> conn \<Rightarrow> inbound \<Rightarrow> server \<Rightarrow> server" where
  "on_message mx now ws msg srv =
     (let g = closure_gamertag ws srv;
          (allowed, s1) = checkRateLimit now ws (sm srv)
      in if \<not> allowed then
           ws_send ws (Error_msg ''Rate limit exceeded'')
             (log_call (Rate_limit_exceeded g) (srv\<lparr>sm := s1\<rparr>))
         else
           (let srv2 = srv\<lparr>sm := updateActivity now ws s1\<rparr>
            in case msg of
                 Unparsable \<Rightarrow> log_call (Message_processing_error g) srv2
               | Parsed_null \<Rightarrow> log_call (Message_processing_error g) srv2
               | Parsed d \<Rightarrow> dispatch mx now ws d srv2))"

section \<open>Connection, close, sweep and the HTTP endpoints\<close>

text \<open>\<open>wss.on("connection")\<close>: a new open socket, sent the stored snapshot if there is
  one. The heartbeat of the connection (ping, pong, \<open>terminate\<close>) is not modelled: a
  socket it terminates closes, which is the close event below.\<close>

definition on_connection :: "conn \<Rightarrow> server \<Rightarrow> server" where
  "on_connection ws srv =
     srv\<lparr>wss_clients := wss_clients srv @
           [(ws, \<lparr>readyState = 1,
                  sent = (case minecraftData (sm srv) of
                            None \<Rightarrow> [] | Some b \<Rightarrow> [Minecraft_update b None]),
                  closed_with = None,
                  gamertag_var = Null\<rparr>)]\<rparr>"

text \<open>
  \<open>ws.on('close')\<close>. When the event fires the socket is CLOSED, so neither broadcast
  helper sends to it; it stays in the list with that state, which lets its \<open>sent\<close> be
  read afterwards.
\<close>

definition on_close :: "conn \<Rightarrow> server \<Rightarrow> server" where
  "on_close ws srv =
     (let srv0 = srv\<lparr>wss_clients := on_socket ws (\<lambda>k. k\<lparr>readyState := 3\<rparr>) (wss_clients srv)\<rparr>;
          g = closure_gamertag ws srv
      in if truthy g then
           (let srv1 = log_call (Disconnected g) srv0;
                srv2 = srv1\<lparr>sm := removeClient ws (sm srv1)\<rparr>;
                srv3 = broadcast ws (Leave_evt g) srv2
            in broadcastToAll (Participants_list (getParticipants (sm srv3))) srv3)
         else srv0)"

text \<open>\<open>StateManager.cleanup\<close>: the loop over the entries of \<open>clients\<close>.\<close>

fun sweep :: "int \<Rightarrow> (conn \<times> client_data) list \<Rightarrow> server \<Rightarrow> server" where
  "sweep now [] srv = srv"
| "sweep now (e # es) srv =
     sweep now es
       (if now - lastActivity (snd e) > CLIENT_TIMEOUT then
          (let srv1 = log_call (Client_timeout (gamertag (snd e))) srv;
               srv2 = ws_close (fst e) 1000 ''Timeout'' srv1
           in srv2\<lparr>sm := removeClient (fst e) (sm srv2)\<rparr>)
        else srv)"

definition cleanup :: "int \<Rightarrow> server \<Rightarrow> server" where
  "cleanup now srv = sweep now (clients (sm srv)) srv"

text \<open>\<open>POST /minecraft-data\<close>: the body of the loop over the players, the loop, and
  the handler with its response (\<open>processed\<close>, \<open>broadcasted\<close>). On a body that is an
  object nothing in the handler throws, so its \<open>catch\<close> has no branch here.\<close>

definition upsert_player :: "player \<Rightarrow> state_manager \<Rightarrow> state_manager" where
  "upsert_player p s =
     (if \<not> truthy (name p) then s
      else s\<lparr>pttStates := map_set (name p)
                 \<lparr>ptt_isTalking = JBool (truthy (data_isTalking p)),
                  isMuted = JBool (truthy (data_isMuted p))\<rparr>
                 (pttStates s),
              voiceStates := map_set (name p)
                 \<lparr>isTalking = JBool (truthy (data_isTalking p)),
                  volume = (if is_number (data_voiceVolume p)
                            then data_voiceVolume p else Num (- 100))\<rparr>
                 (voiceStates s)\<rparr>)"

fun upsert_players :: "player list \<Rightarrow> state_manager \<Rightarrow> state_manager" where
  "upsert_players [] s = s"
| "upsert_players (p # ps) s = upsert_players ps (upsert_player p s)"

definition post_minecraft_data :: "body \<Rightarrow> server \<Rightarrow> (nat \<times> nat) \<times> server" where
  "post_minecraft_data b srv =
     (let ps = (case players b of Some ps \<Rightarrow> ps | None \<Rightarrow> []);
          s' = upsert_players ps ((sm srv)\<lparr>minecraftData := Some b\<rparr>);
          sentCount = length (filter (\<lambda>e. readyState (snd e) = 1) (wss_clients srv))
      in ((length ps, sentCount),
          broadcastToAll (Minecraft_update b (Some (pttStates s', voiceStates s')))
            (srv\<lparr>sm := s'\<rparr>)))"

text \<open>\<open>GET /ptt-states\<close> and \<open>GET /voice-states\<close>: one object
  \<open>{gamertag, isTalking, isMuted}\<close>, respectively \<open>{gamertag, isTalking, volume}\<close>,
  for each entry, in the order of the map.\<close>

definition get_ptt_states :: "server \<Rightarrow> (jsval \<times> jsval \<times> jsval) list" where
  "get_ptt_states srv =
     map (\<lambda>e. (fst e, ptt_isTalking (snd e), isMuted (snd e))) (pttStates (sm srv))"

definition get_voice_states :: "server \<Rightarrow> (jsval \<times> jsval \<times> jsval) list" where
  "get_voice_states srv =
     map (\<lambda>e. (fst e, isTalking (snd e), volume (snd e))) (voiceStates (sm srv))"

definition new_server :: server where
  "new_server = \<lparr>sm = new_StateManager, wss_clients = [], logged = []\<rparr>"

section \<open>Runs, reachable states and the scenarios\<close>

text \<open>The window stored for a connection, and a run of \<open>checkRateLimit\<close> for one
  connection at the given times, with the answers in order.\<close>

definition window_of :: "conn \<Rightarrow> state_manager \<Rightarrow> rate_limit option" where
  "window_of ws s = map_get ws (rateLimits s)"

fun run_checks :: "conn \<Rightarrow> int list \<Rightarrow> state_manager \<Rightarrow> bool list \<times> state_manager" where
  "run_checks ws [] s = ([], s)"
| "run_checks ws (t # ts) s =
     (let (a, s') = checkRateLimit t ws s; (as, s'') = run_checks ws ts s' in (a # as, s''))"

text \<open>The state in which the branches run for a message the rate limiter allows: the
  window is stored and the activity of the sender updated.\<close>

definition before_dispatch :: "int \<Rightarrow> conn \<Rightarrow> server \<Rightarrow> server" where
  "before_dispatch now ws srv =
     srv\<lparr>sm := updateActivity now ws (snd (checkRateLimit now ws (sm srv)))\<rparr>"

text \<open>The identity a connection is registered under, if it is registered.\<close>

definition identity_of :: "conn \<Rightarrow> state_manager \<Rightarrow> jsval option" where
  "identity_of ws s = map_option gamertag (map_get ws (clients s))"

text \<open>
  The states the server can be in: it starts empty, and then a socket connects under a
  new handle, a message arrives on a socket that has not closed, a socket closes, the
  sweep runs, or a snapshot is posted.
\<close>

inductive reachable :: "int \<Rightarrow> server \<Rightarrow> bool" for mx :: int where
  start: "reachable mx new_server"
| connection: "reachable mx srv \<Longrightarrow> socket_of ws srv = None \<Longrightarrow> reachable mx (on_connection ws srv)"
| message: "reachable mx srv \<Longrightarrow> socket_of ws srv = Some k \<Longrightarrow> readyState k \<noteq> 3 \<Longrightarrow>
            reachable mx (on_message mx now ws msg srv)"
| closing: "reachable mx srv \<Longrightarrow> socket_of ws srv = Some k \<Longrightarrow> readyState k \<noteq> 3 \<Longrightarrow>
            reachable mx (on_close ws srv)"
| sweeping: "reachable mx srv \<Longrightarrow> reachable mx (cleanup now srv)"
| snapshot: "reachable mx srv \<Longrightarrow> reachable mx (snd (post_minecraft_data b srv))"

text \<open>
  What holds in every reachable state: no two registered connections share an identity,
  the closure variable of a registered connection holds its identity, and a registered
  identity has its PTT and voice entries.
\<close>

definition vars :: "server \<Rightarrow> conn \<Rightarrow> jsval option" where
  "vars srv c = map_option gamertag_var (socket_of c srv)"

definition coherent_core :: "state_manager \<Rightarrow> (conn \<Rightarrow> jsval option) \<Rightarrow> bool" where
  "coherent_core s v \<longleftrightarrow>
     distinct (getParticipants s) \<and>
     (\<forall>ws cd. map_get ws (clients s) = Some cd \<longrightarrow>
        v ws = Some (gamertag cd) \<and>
        map_get (gamertag cd) (pttStates s) \<noteq> None \<and>
        map_get (gamertag cd) (voiceStates s) \<noteq> None)"

definition coherent :: "server \<Rightarrow> bool" where
  "coherent srv \<longleftrightarrow> coherent_core (sm srv) (vars srv)"

text \<open>The last record of a snapshot that names an identity, among those the loop does
  not skip.\<close>

definition last_record :: "jsval \<Rightarrow> player list \<Rightarrow> player option" where
  "last_record g ps = find (\<lambda>p. truthy (name p) \<and> name p = g) (rev ps)"

text \<open>Messages by type, with every other field missing unless given.\<close>

definition msg_of_type :: "string \<Rightarrow> envelope" where
  "msg_of_type t = \<lparr>msg_type = Str t, msg_gamertag = Undef, msg_isTalking = Undef,
     msg_isMuted = Undef, msg_volume = Undef, msg_to = Undef, msg_from = Undef\<rparr>"

definition join_msg :: "jsval \<Rightarrow> inbound" where
  "join_msg g = Parsed ((msg_of_type ''join'')\<lparr>msg_gamertag := g\<rparr>)"

text \<open>
  The scenarios, with 200 connections allowed: two sockets connect; socket 1 joins as
  Alice at time 0 and socket 2 as Bob at time 1 (\<open>alice_bob\<close>); or socket 1 joins under
  the empty string and socket 2 as Bob (\<open>empty_bob\<close>).
\<close>

definition two_sockets :: server where
  "two_sockets = on_connection 2 (on_connection 1 new_server)"

definition alice_only :: server where
  "alice_only = on_message 200 0 1 (join_msg (Str ''Alice'')) two_sockets"

definition alice_bob :: server where
  "alice_bob = on_message 200 1 2 (join_msg (Str ''Bob'')) alice_only"

definition empty_bob :: server where
  "empty_bob = on_message 200 1 2 (join_msg (Str ''Bob''))
                 (on_message 200 0 1 (join_msg (Str [])) two_sockets)"

text \<open>After \<open>alice_bob\<close>, socket 2 joins again as Robert at time 5 (\<open>bob_robert\<close>) and
  once more as Bob at time 6 (\<open>bob_robert_bob\<close>).\<close>

definition bob_robert :: server where
  "bob_robert = on_message 200 5 2 (join_msg (Str ''Robert'')) alice_bob"

definition bob_robert_bob :: server where
  "bob_robert_bob = on_message 200 6 2 (join_msg (Str ''Bob'')) bob_robert"

section \<open>Lemmas about maps, sockets and the invariant\<close>

subsection \<open>Maps\<close>

lemma map_get_map_set: "map_get k (map_set k' v es) = (if k = k' then Some v else map_get k es)"
  by (induction es) auto

lemma map_get_map_delete: "map_get k (map_delete k' es) = (if k = k' then None else map_get k es)"
  by (induction es) (auto simp: map_delete_def)

lemma map_get_append:
  "map_get k (es @ fs) = (case map_get k es of Some v \<Rightarrow> Some v | None \<Rightarrow> map_get k fs)"
  by (induction es) auto

lemma map_get_mem: "map_get k es = Some v \<Longrightarrow> (k, v) \<in> set es"
  by (induction es) (auto split: if_splits)

lemma map_get_None_iff: "map_get k es = None \<longleftrightarrow> k \<notin> fst ` set es"
  by (induction es) auto

lemma map_delete_absent: "map_get k es = None \<Longrightarrow> map_delete k es = es"
  by (induction es) (auto simp: map_delete_def split: if_splits)

lemma map_delete_twice: "map_delete k (map_delete k es) = map_delete k es"
  by (simp add: map_delete_def)

lemma map_get_on_socket:
  "map_get c (on_socket ws f cs) = (if c = ws then map_option f (map_get c cs) else map_get c cs)"
  by (induction cs) (auto simp: on_socket_def)

lemma map_get_map_each:
  "map_get c (map (\<lambda>e. if P e then (fst e, f (snd e)) else e) cs)
     = map_option (\<lambda>k. if P (c, k) then f k else k) (map_get c cs)"
  by (induction cs) auto

subsection \<open>Sockets\<close>

lemma sm_ops [simp]:
  "sm (ws_send ws m srv) = sm srv"
  "sm (ws_close ws code reason srv) = sm srv"
  "sm (set_gamertag ws g srv) = sm srv"
  "sm (log_call l srv) = sm srv"
  "sm (broadcast ws m srv) = sm srv"
  "sm (broadcastToAll m srv) = sm srv"
  by (simp_all add: ws_send_def ws_close_def set_gamertag_def log_call_def broadcast_def broadcastToAll_def)

lemma logged_ops [simp]:
  "logged (ws_send ws m srv) = logged srv"
  "logged (ws_close ws code reason srv) = logged srv"
  "logged (set_gamertag ws g srv) = logged srv"
  "logged (log_call l srv) = logged srv @ [l]"
  "logged (broadcast ws m srv) = logged srv"
  "logged (broadcastToAll m srv) = logged srv"
  by (simp_all add: ws_send_def ws_close_def set_gamertag_def log_call_def broadcast_def broadcastToAll_def)

lemma socket_of_sm [simp]: "socket_of c (srv\<lparr>sm := s\<rparr>) = socket_of c srv"
  by (simp add: socket_of_def)

lemma socket_of_log [simp]: "socket_of c (log_call l srv) = socket_of c srv"
  by (simp add: socket_of_def log_call_def)

lemma socket_of_send:
  "socket_of c (ws_send ws m srv) =
     (if c = ws then map_option (\<lambda>k. k\<lparr>sent := sent k @ [m]\<rparr>) (socket_of c srv) else socket_of c srv)"
  by (simp add: socket_of_def ws_send_def map_get_on_socket)

lemma socket_of_close:
  "socket_of c (ws_close ws code reason srv) =
     (if c = ws
      then map_option (\<lambda>k. if readyState k = 1
                           then k\<lparr>readyState := 2, closed_with := Some (code, reason)\<rparr> else k)
             (socket_of c srv)
      else socket_of c srv)"
  by (simp add: socket_of_def ws_close_def map_get_on_socket)

lemma socket_of_set_gamertag:
  "socket_of c (set_gamertag ws g srv) =
     (if c = ws then map_option (\<lambda>k. k\<lparr>gamertag_var := g\<rparr>) (socket_of c srv) else socket_of c srv)"
  by (simp add: socket_of_def set_gamertag_def map_get_on_socket)

lemma socket_of_broadcast:
  "socket_of c (broadcast ws m srv) =
     map_option (\<lambda>k. if c \<noteq> ws \<and> readyState k = 1 then k\<lparr>sent := sent k @ [m]\<rparr> else k)
       (socket_of c srv)"
  using map_get_map_each [of c "\<lambda>e. fst e \<noteq> ws \<and> readyState (snd e) = 1" "\<lambda>k. k\<lparr>sent := sent k @ [m]\<rparr>" "wss_clients srv"]
  by (simp add: socket_of_def broadcast_def)

lemma socket_of_broadcastToAll:
  "socket_of c (broadcastToAll m srv) =
     map_option (\<lambda>k. if readyState k = 1 then k\<lparr>sent := sent k @ [m]\<rparr> else k) (socket_of c srv)"
  using map_get_map_each [of c "\<lambda>e. readyState (snd e) = 1" "\<lambda>k. k\<lparr>sent := sent k @ [m]\<rparr>" "wss_clients srv"]
  by (simp add: socket_of_def broadcastToAll_def)

lemmas socket_of_ops = socket_of_send socket_of_close socket_of_set_gamertag socket_of_broadcast
  socket_of_broadcastToAll

lemma vars_ops [simp]:
  "vars (srv\<lparr>sm := s\<rparr>) = vars srv"
  "vars (ws_send ws m srv) = vars srv"
  "vars (ws_close ws code reason srv) = vars srv"
  "vars (log_call l srv) = vars srv"
  "vars (broadcast ws m srv) = vars srv"
  "vars (broadcastToAll m srv) = vars srv"
  by (auto simp: vars_def fun_eq_iff socket_of_ops option.map_comp comp_def
        if_distrib [where f = gamertag_var] cong: if_cong)

lemma vars_set_gamertag:
  "vars (set_gamertag ws g srv) = (\<lambda>c. if c = ws then map_option (\<lambda>_. g) (vars srv c) else vars srv c)"
  by (auto simp: vars_def fun_eq_iff socket_of_ops option.map_comp comp_def)

lemma closure_gamertag_vars: "closure_gamertag ws srv = (case vars srv ws of Some g \<Rightarrow> g | None \<Rightarrow> Null)"
  by (simp add: closure_gamertag_def vars_def split: option.splits)

subsection \<open>The rate limiter\<close>

lemma checkRateLimit_window:
  "window_of ws (snd (checkRateLimit now ws s)) =
     Some (case window_of ws s of
             None \<Rightarrow> \<lparr>count = 1, resetAt = now + RATE_LIMIT_WINDOW\<rparr>
           | Some l \<Rightarrow> if now > resetAt l then \<lparr>count = 1, resetAt = now + RATE_LIMIT_WINDOW\<rparr>
                       else l\<lparr>count := count l + 1\<rparr>)"
  by (auto simp: checkRateLimit_def window_of_def Let_def map_get_map_set RATE_LIMIT_WINDOW_def split: option.splits)

lemma checkRateLimit_allowed:
  "fst (checkRateLimit now ws s) =
     (case window_of ws (snd (checkRateLimit now ws s)) of Some l \<Rightarrow> count l \<le> RATE_LIMIT_MAX | None \<Rightarrow> False)"
  by (auto simp: checkRateLimit_def window_of_def Let_def map_get_map_set split: option.splits)

lemma run_checks_within:
  "window_of ws s = Some l \<Longrightarrow> \<forall>t\<in>set ts. t \<le> resetAt l \<Longrightarrow>
   fst (run_checks ws ts s) = map (\<lambda>i. count l + int i + 1 \<le> RATE_LIMIT_MAX) [0..<length ts] \<and>
   window_of ws (snd (run_checks ws ts s)) = Some (l\<lparr>count := count l + int (length ts)\<rparr>)"
proof (induction ts arbitrary: s l)
  case Nil
  then show ?case by simp
next
  case (Cons t ts)
  obtain a s' where step: "checkRateLimit t ws s = (a, s')" by (cases "checkRateLimit t ws s")
  have le: "t \<le> resetAt l" using Cons.prems(2) by simp
  have w': "window_of ws s' = Some (l\<lparr>count := count l + 1\<rparr>)"
    using checkRateLimit_window [of ws t s] step Cons.prems(1) le by simp
  have a: "a = (count l + 1 \<le> RATE_LIMIT_MAX)"
    using checkRateLimit_allowed [of t ws s] step w' by simp
  have rest: "\<forall>u\<in>set ts. u \<le> resetAt (l\<lparr>count := count l + 1\<rparr>)" using Cons.prems(2) by simp
  note ih = Cons.IH [OF w' rest]
  have shift: "map (\<lambda>i. count l + int i + 1 \<le> RATE_LIMIT_MAX) [0..<Suc (length ts)]
      = (count l + 1 \<le> RATE_LIMIT_MAX) # map (\<lambda>i. count l + 1 + int i + 1 \<le> RATE_LIMIT_MAX) [0..<length ts]"
    by (simp add: upt_rec [of 0] map_Suc_upt [symmetric] del: upt_Suc) 
  show ?case using ih step a shift by (simp add: split_beta add.commute add.left_commute)
qed

subsection \<open>Identities\<close>

lemma taken_in_iff: "taken_in g es \<longleftrightarrow> g \<in> (\<lambda>e. gamertag (snd e)) ` set es"
  by (induction es) auto

lemma isGamertagTaken_iff: "isGamertagTaken g s \<longleftrightarrow> g \<in> set (getParticipants s)"
  by (simp add: isGamertagTaken_def getParticipants_def taken_in_iff)

lemma findConnection_None_iff: "findConnection g es = None \<longleftrightarrow> g \<notin> (\<lambda>e. gamertag (snd e)) ` set es"
  by (induction es) auto

lemma map_set_same_image:
  "map_get k es = Some c \<Longrightarrow> f c' = f c \<Longrightarrow>
   map (\<lambda>e. f (snd e)) (map_set k c' es) = map (\<lambda>e. f (snd e)) es"
  by (induction es) (auto split: if_splits)

lemma map_set_image_subset:
  "set (map (\<lambda>e. f (snd e)) (map_set k c es)) \<subseteq> insert (f c) (set (map (\<lambda>e. f (snd e)) es))"
  by (induction es) auto

lemma map_set_distinct_image:
  "distinct (map (\<lambda>e. f (snd e)) es) \<Longrightarrow> f c \<notin> (\<lambda>e. f (snd e)) ` set es \<Longrightarrow>
   distinct (map (\<lambda>e. f (snd e)) (map_set k c es))"
proof (induction es)
  case Nil
  then show ?case by simp
next
  case (Cons e es)
  have sub: "set (map (\<lambda>e. f (snd e)) (map_set k c es)) \<subseteq> insert (f c) (set (map (\<lambda>e. f (snd e)) es))"
    by (rule map_set_image_subset)
  show ?case
  proof (cases "fst e = k")
    case True
    with Cons.prems show ?thesis by auto
  next
    case False
    have "f (snd e) \<notin> set (map (\<lambda>e. f (snd e)) (map_set k c es))"
      using sub Cons.prems by auto
    with False Cons show ?thesis by auto
  qed
qed

lemma distinct_identity_unique:
  assumes "distinct (map (\<lambda>e. gamertag (snd e)) es)"
    and "map_get a es = Some x" and "map_get b es = Some y" and "gamertag x = gamertag y"
  shows "a = b"
proof -
  have inj: "inj_on (\<lambda>e. gamertag (snd e)) (set es)"
    using assms(1) by (simp add: distinct_map)
  have "(a, x) \<in> set es" "(b, y) \<in> set es"
    using assms(2,3) by (auto dest: map_get_mem)
  then have "(a, x) = (b, y)"
    using inj_onD [OF inj, of "(a, x)" "(b, y)"] assms(4) by simp
  then show ?thesis by simp
qed

subsection \<open>The invariant\<close>

lemma coherent_core_vars_mono:
  "coherent_core s v \<Longrightarrow> (\<And>c g. v c = Some g \<Longrightarrow> v' c = Some g) \<Longrightarrow> coherent_core s v'"
  by (auto simp: coherent_core_def)

lemma coherent_core_same:
  "coherent_core s v \<Longrightarrow> clients s' = clients s \<Longrightarrow> pttStates s' = pttStates s \<Longrightarrow>
   voiceStates s' = voiceStates s \<Longrightarrow> coherent_core s' v"
  by (simp add: coherent_core_def getParticipants_def)

lemma checkRateLimit_fields [simp]:
  "clients (snd (checkRateLimit now ws s)) = clients s"
  "pttStates (snd (checkRateLimit now ws s)) = pttStates s"
  "voiceStates (snd (checkRateLimit now ws s)) = voiceStates s"
  "minecraftData (snd (checkRateLimit now ws s)) = minecraftData s"
  by (simp_all add: checkRateLimit_def Let_def)

lemma updateActivity_fields [simp]:
  "pttStates (updateActivity now ws s) = pttStates s"
  "voiceStates (updateActivity now ws s) = voiceStates s"
  "rateLimits (updateActivity now ws s) = rateLimits s"
  "minecraftData (updateActivity now ws s) = minecraftData s"
  by (simp_all add: updateActivity_def split: option.splits)

lemma updateActivity_get:
  "map_get c (clients (updateActivity now ws s)) =
     (if c = ws
      then map_option (\<lambda>cd. cd\<lparr>lastActivity := now, messageCount := messageCount cd + 1\<rparr>)
             (map_get c (clients s))
      else map_get c (clients s))"
  by (auto simp: updateActivity_def map_get_map_set split: option.splits)

lemma updateActivity_participants [simp]:
  "getParticipants (updateActivity now ws s) = getParticipants s"
  by (auto simp: updateActivity_def getParticipants_def map_set_same_image split: option.splits)

lemma updateActivity_keys [simp]:
  "map fst (clients (updateActivity now ws s)) = map fst (clients s)"
proof -
  have "\<And>c c'. map_get ws es = Some c \<Longrightarrow> map fst (map_set ws c' es) = map fst es" for es :: "(conn \<times> client_data) list"
    by (induction es) (auto split: if_splits)
  then show ?thesis by (auto simp: updateActivity_def split: option.splits)
qed

lemma coherent_core_updateActivity: "coherent_core s v \<Longrightarrow> coherent_core (updateActivity now ws s) v"
  unfolding coherent_core_def by (auto simp: updateActivity_get split: if_splits)

lemma coherent_core_removeClient:
  assumes "coherent_core s v" shows "coherent_core (removeClient ws s) v"
proof (cases "map_get ws (clients s)")
  case None
  then show ?thesis using assms by (simp add: removeClient_def)
next
  case (Some cd)
  have d: "distinct (map (\<lambda>e. gamertag (snd e)) (clients s))"
    using assms by (simp add: coherent_core_def getParticipants_def)
  have other: "gamertag cd' \<noteq> gamertag cd" if "c \<noteq> ws" "map_get c (clients s) = Some cd'" for c cd'
    using distinct_identity_unique [OF d that(2) Some] that(1) by auto
  have d': "distinct (map (\<lambda>e. gamertag (snd e)) (map_delete ws (clients s)))"
    using d by (simp add: map_delete_def distinct_map_filter)
  show ?thesis
    using assms Some other d' unfolding coherent_core_def
    by (auto simp: removeClient_def getParticipants_def map_get_map_delete split: if_splits)
qed

lemma coherent_core_addClient:
  assumes "coherent_core s v" and "addClient mx now ws g s = Inr s'"
  shows "coherent_core s' (\<lambda>c. if c = ws then Some g else v c)"
proof -
  have free: "g \<notin> (\<lambda>e. gamertag (snd e)) ` set (clients s)"
    using assms(2) by (auto simp: addClient_def isGamertagTaken_iff getParticipants_def split: if_splits)
  have s': "s' = s\<lparr>clients := map_set ws
                     \<lparr>gamertag = g, joinedAt = now, lastActivity = now, messageCount = 0\<rparr> (clients s),
                  pttStates := map_set g \<lparr>ptt_isTalking = JBool True, isMuted = JBool False\<rparr> (pttStates s),
                  voiceStates := map_set g \<lparr>isTalking = JBool False, volume = Num 0\<rparr> (voiceStates s)\<rparr>"
    using assms(2) by (auto simp: addClient_def split: if_splits)
  have d: "distinct (map (\<lambda>e. gamertag (snd e)) (clients s'))"
    unfolding s' using assms(1) free
    by (simp add: coherent_core_def getParticipants_def map_set_distinct_image [where f = gamertag])
  show ?thesis
    using assms(1) d unfolding coherent_core_def
    by (auto simp: s' getParticipants_def map_get_map_set split: if_splits)
qed

lemma coherent_core_set_ptt:
  "coherent_core s v \<Longrightarrow> coherent_core (s\<lparr>pttStates := map_set g x (pttStates s)\<rparr>) v"
  by (auto simp: coherent_core_def getParticipants_def map_get_map_set)

lemma coherent_core_set_voice:
  "coherent_core s v \<Longrightarrow> coherent_core (s\<lparr>voiceStates := map_set g x (voiceStates s)\<rparr>) v"
  by (auto simp: coherent_core_def getParticipants_def map_get_map_set)

lemma coherent_core_upsert_player: "coherent_core s v \<Longrightarrow> coherent_core (upsert_player p s) v"
  by (auto simp: coherent_core_def getParticipants_def map_get_map_set upsert_player_def)

lemma coherent_core_upsert_players: "coherent_core s v \<Longrightarrow> coherent_core (upsert_players ps s) v"
  by (induction ps arbitrary: s) (auto intro: coherent_core_upsert_player)

subsection \<open>Every reachable state satisfies the invariant\<close>

lemma vars_set_gamertag_present:
  "socket_of ws srv = Some k \<Longrightarrow>
   vars (set_gamertag ws g srv) = (\<lambda>c. if c = ws then Some g else vars srv c)"
  by (auto simp: vars_set_gamertag vars_def fun_eq_iff)

lemma coherent_dispatch:
  assumes "coherent srv" and "socket_of ws srv = Some k"
  shows "coherent (dispatch mx now ws d srv)"
proof -
  have join: "coherent (dispatch mx now ws d srv)" if "msg_type d = Str ''join''"
  proof (cases "addClient mx now ws (msg_gamertag d) (sm srv)")
    case (Inl e)
    then show ?thesis using assms(1) that by (simp add: dispatch_def coherent_def Let_def)
  next
    case (Inr s')
    have "coherent_core s' (\<lambda>c. if c = ws then Some (msg_gamertag d) else vars srv c)"
      using coherent_core_addClient [OF _ Inr] assms(1) by (simp add: coherent_def)
    moreover have "vars (set_gamertag ws (msg_gamertag d) (srv\<lparr>sm := s'\<rparr>))
        = (\<lambda>c. if c = ws then Some (msg_gamertag d) else vars srv c)"
      using vars_set_gamertag_present [of ws "srv\<lparr>sm := s'\<rparr>" k] assms(2)
      by (simp cong: if_cong)
    ultimately show ?thesis using that Inr by (simp add: dispatch_def coherent_def Let_def)
  qed
  have leave: "coherent (dispatch mx now ws d srv)" if "msg_type d = Str ''leave''"
    using assms(1) that by (simp add: dispatch_def coherent_def Let_def coherent_core_removeClient)
  have voice: "coherent (dispatch mx now ws d srv)" if "msg_type d = Str ''voice-detection''"
    using assms(1) that by (simp add: dispatch_def coherent_def coherent_core_set_voice)
  have ptt: "coherent (dispatch mx now ws d srv)" if "msg_type d = Str ''ptt-status''"
    using assms(1) that by (simp add: dispatch_def coherent_def Let_def coherent_core_set_ptt)
  have rest: "coherent (dispatch mx now ws d srv)"
    if "msg_type d \<noteq> Str ''join''" "msg_type d \<noteq> Str ''leave''"
       "msg_type d \<noteq> Str ''voice-detection''" "msg_type d \<noteq> Str ''ptt-status''"
    using assms(1) that by (auto simp: dispatch_def coherent_def split: option.splits)
  show ?thesis using join leave voice ptt rest by blast
qed

lemma coherent_on_message:
  assumes "coherent srv" and "socket_of ws srv = Some k"
  shows "coherent (on_message mx now ws msg srv)"
proof -
  obtain a s1 where c: "checkRateLimit now ws (sm srv) = (a, s1)"
    by (cases "checkRateLimit now ws (sm srv)")
  have "clients s1 = clients (sm srv)" "pttStates s1 = pttStates (sm srv)"
       "voiceStates s1 = voiceStates (sm srv)"
    using checkRateLimit_fields [of now ws "sm srv"] c by simp_all
  then have s1: "coherent_core s1 (vars srv)"
    using coherent_core_same [of "sm srv" "vars srv" s1] assms(1) by (simp add: coherent_def)
  let ?srv2 = "srv\<lparr>sm := updateActivity now ws s1\<rparr>"
  have w2: "coherent ?srv2" using s1 by (simp add: coherent_def coherent_core_updateActivity)
  have k2: "socket_of ws ?srv2 = Some k" using assms(2) by simp
  show ?thesis
  proof (cases a)
    case False
    then show ?thesis using c s1 by (simp add: on_message_def coherent_def)
  next
    case True
    then show ?thesis using c w2 coherent_dispatch [OF w2 k2]
      by (cases msg) (simp_all add: on_message_def coherent_def)
  qed
qed

lemma coherent_on_connection:
  assumes "coherent srv" and "socket_of ws srv = None"
  shows "coherent (on_connection ws srv)"
proof -
  have "vars srv c = Some g \<Longrightarrow> vars (on_connection ws srv) c = Some g" for c g
    using assms(2) by (auto simp: vars_def socket_of_def on_connection_def map_get_append)
  then show ?thesis
    using assms(1) coherent_core_vars_mono [of "sm srv" "vars srv" "vars (on_connection ws srv)"]
    by (simp add: coherent_def on_connection_def)
qed

lemma vars_closed [simp]:
  "vars (srv\<lparr>wss_clients := on_socket ws (\<lambda>k. k\<lparr>readyState := 3\<rparr>) (wss_clients srv)\<rparr>) = vars srv"
  by (auto simp: vars_def socket_of_def map_get_on_socket fun_eq_iff option.map_comp comp_def)

lemma coherent_on_close: "coherent srv \<Longrightarrow> coherent (on_close ws srv)"
  by (simp add: on_close_def coherent_def Let_def coherent_core_removeClient)

lemma coherent_sweep: "coherent srv \<Longrightarrow> coherent (sweep now es srv)"
  by (induction es arbitrary: srv) (simp_all add: coherent_def Let_def coherent_core_removeClient)

lemma coherent_cleanup: "coherent srv \<Longrightarrow> coherent (cleanup now srv)"
  by (simp add: cleanup_def coherent_sweep)

lemma coherent_post_minecraft_data: "coherent srv \<Longrightarrow> coherent (snd (post_minecraft_data b srv))"
  using coherent_core_same [of "sm srv" "vars srv" "(sm srv)\<lparr>minecraftData := Some b\<rparr>"]
  by (simp add: post_minecraft_data_def coherent_def Let_def coherent_core_upsert_players)

lemma coherent_new_server: "coherent new_server"
  by (simp add: coherent_def coherent_core_def new_server_def new_StateManager_def getParticipants_def)

lemma reachable_wf: "reachable mx srv \<Longrightarrow> coherent srv"
  by (induction rule: reachable.induct)
     (simp_all add: coherent_new_server coherent_on_connection coherent_on_message coherent_on_close coherent_cleanup
        coherent_post_minecraft_data)

section \<open>The rate limiter as a window counter\<close>

lemma run_checks_append:
  "run_checks ws (xs @ ys) s =
     (fst (run_checks ws xs s) @ fst (run_checks ws ys (snd (run_checks ws xs s))),
      snd (run_checks ws ys (snd (run_checks ws xs s))))"
  by (induction xs arbitrary: s) (simp_all add: split_beta Let_def)

lemma fifty_answers:
  "map (\<lambda>i. (1::int) + int i + 1 \<le> 50) [0..<50] = replicate 49 True @ [False]"
  by (auto simp: list_eq_iff_nth_eq nth_append)

text \<open>
  Claim C2. \<open>checkRateLimit\<close> is a window counter for each connection. On the first
  message of a connection, and when the clock has passed \<open>resetAt\<close>, the stored window
  becomes count 1 with \<open>resetAt = now + 1000\<close>; otherwise the count goes up by one and
  \<open>resetAt\<close> stays. The answer is whether the new count is at most 50. So, of 51
  messages of a new connection that all fall within 1000 ms of the first, the first 50
  are allowed and the 51st is rejected, and a message after the window has elapsed is
  allowed again.
\<close>

theorem checkRateLimit_window_counter:
  "window_of ws (snd (checkRateLimit now ws s)) =
     Some (case window_of ws s of
             None \<Rightarrow> \<lparr>count = 1, resetAt = now + 1000\<rparr>
           | Some l \<Rightarrow> if now > resetAt l then \<lparr>count = 1, resetAt = now + 1000\<rparr>
                       else l\<lparr>count := count l + 1\<rparr>)
   \<and> fst (checkRateLimit now ws s) =
       (case window_of ws (snd (checkRateLimit now ws s)) of
          Some l \<Rightarrow> count l \<le> 50 | None \<Rightarrow> False)
   \<and> (window_of ws s = None \<and> length ts = 49 \<and> (\<forall>t\<in>set (ts @ [t51]). t \<le> t1 + 1000)
        \<and> t1 + 1000 < t52 \<longrightarrow>
      fst (run_checks ws (t1 # ts @ [t51, t52]) s) = replicate 50 True @ [False, True])"
proof (intro conjI impI)
  show "window_of ws (snd (checkRateLimit now ws s)) =
     Some (case window_of ws s of
             None \<Rightarrow> \<lparr>count = 1, resetAt = now + 1000\<rparr>
           | Some l \<Rightarrow> if now > resetAt l then \<lparr>count = 1, resetAt = now + 1000\<rparr>
                       else l\<lparr>count := count l + 1\<rparr>)"
    using checkRateLimit_window [of ws now s, unfolded RATE_LIMIT_WINDOW_def] by simp
  show "fst (checkRateLimit now ws s) =
       (case window_of ws (snd (checkRateLimit now ws s)) of
          Some l \<Rightarrow> count l \<le> 50 | None \<Rightarrow> False)"
    using checkRateLimit_allowed [of now ws s, unfolded RATE_LIMIT_MAX_def] by simp
next
  assume h: "window_of ws s = None \<and> length ts = 49 \<and> (\<forall>t\<in>set (ts @ [t51]). t \<le> t1 + 1000)
        \<and> t1 + 1000 < t52"
  define s1 where "s1 = snd (checkRateLimit t1 ws s)"
  define l1 where "l1 = \<lparr>count = 1, resetAt = t1 + 1000\<rparr>"
  have w1: "window_of ws s1 = Some l1"
    using checkRateLimit_window [of ws t1 s, unfolded RATE_LIMIT_WINDOW_def] h
    by (simp add: s1_def l1_def)
  have a1: "fst (checkRateLimit t1 ws s) = True"
    using checkRateLimit_allowed [of t1 ws s] w1 by (simp add: s1_def l1_def RATE_LIMIT_MAX_def)
  define mids where "mids = ts @ [t51]"
  have inwin: "\<forall>t\<in>set mids. t \<le> resetAt l1" using h by (simp add: l1_def mids_def)
  have len: "length mids = 50" using h by (simp add: mids_def)
  define s2 where "s2 = snd (run_checks ws mids s1)"
  have mid: "fst (run_checks ws mids s1) = replicate 49 True @ [False]"
    and w2: "window_of ws s2 = Some (l1\<lparr>count := 51\<rparr>)"
    using run_checks_within [OF w1 inwin] len fifty_answers
    by (simp_all add: l1_def s2_def RATE_LIMIT_MAX_def)
  have w3: "window_of ws (snd (checkRateLimit t52 ws s2)) = Some \<lparr>count = 1, resetAt = t52 + 1000\<rparr>"
    using checkRateLimit_window [of ws t52 s2, unfolded RATE_LIMIT_WINDOW_def] w2 h
    by (simp add: l1_def)
  have a3: "fst (checkRateLimit t52 ws s2) = True"
    using checkRateLimit_allowed [of t52 ws s2] w3 by (simp add: RATE_LIMIT_MAX_def)
  have first: "run_checks ws [t1] s = ([True], s1)"
    using a1 by (simp add: split_beta s1_def)
  have last: "fst (run_checks ws [t52] s2) = [True]"
    using a3 by (simp add: split_beta)
  have split: "t1 # ts @ [t51, t52] = [t1] @ (mids @ [t52])" by (simp add: mids_def)
  have "fst (run_checks ws (t1 # ts @ [t51, t52]) s) = [True] @ (replicate 49 True @ [False]) @ [True]"
    unfolding split
    by (simp only: run_checks_append [of ws "[t1]"] run_checks_append [of ws mids] first mid last
          fst_conv snd_conv s2_def [symmetric])
  then show "fst (run_checks ws (t1 # ts @ [t51, t52]) s) = replicate 50 True @ [False, True]"
    by (simp add: numeral_eq_Suc)
qed

theorem checkRateLimit_window_counter_witness:
  "window_of 1 new_StateManager = None \<and> length (map int [1..<50]) = 49
   \<and> list_all (\<lambda>t. t \<le> 0 + 1000) (map int [1..<50] @ [1000]) \<and> (0::int) + 1000 < 1001
   \<and> fst (run_checks 1 (0 # map int [1..<50] @ [1000, 1001]) new_StateManager)
       = replicate 50 True @ [False, True]"
proof -
  have h: "window_of 1 new_StateManager = None \<and> length (map int [1..<50]) = 49
     \<and> (\<forall>t\<in>set (map int [1..<50] @ [1000]). t \<le> 0 + 1000) \<and> (0::int) + 1000 < 1001"
    by (auto simp: window_of_def new_StateManager_def)
  show ?thesis
    using h checkRateLimit_window_counter [of 1 0 new_StateManager "map int [1..<50]" 1000 0 1001]
    unfolding list_all_iff by blast
qed

section \<open>The scenarios evaluated\<close>

lemmas handler_defs = on_message_def dispatch_def on_close_def on_connection_def addClient_def
  checkRateLimit_def updateActivity_def removeClient_def isGamertagTaken_def getParticipants_def
  ws_send_def ws_close_def set_gamertag_def log_call_def broadcast_def broadcastToAll_def
  on_socket_def closure_gamertag_def socket_of_def join_msg_def msg_of_type_def map_delete_def
  new_server_def new_StateManager_def RATE_LIMIT_WINDOW_def RATE_LIMIT_MAX_def Let_def

lemma two_sockets_state:
  "two_sockets =
     \<lparr>sm = new_StateManager,
      wss_clients =
        [(1, \<lparr>readyState = 1, sent = [], closed_with = None, gamertag_var = Null\<rparr>),
         (2, \<lparr>readyState = 1, sent = [], closed_with = None, gamertag_var = Null\<rparr>)],
      logged = []\<rparr>"
  by (simp add: two_sockets_def handler_defs)

lemma alice_only_state:
  "alice_only =
     \<lparr>sm = \<lparr>minecraftData = None,
             clients = [(1, \<lparr>gamertag = Str ''Alice'', joinedAt = 0, lastActivity = 0,
                            messageCount = 0\<rparr>)],
             pttStates = [(Str ''Alice'', \<lparr>ptt_isTalking = JBool True, isMuted = JBool False\<rparr>)],
             voiceStates = [(Str ''Alice'', \<lparr>isTalking = JBool False, volume = Num 0\<rparr>)],
             rateLimits = [(1, \<lparr>count = 1, resetAt = 1000\<rparr>)]\<rparr>,
      wss_clients =
        [(1, \<lparr>readyState = 1,
               sent = [Participants_list [Str ''Alice''], Participants_list [Str ''Alice'']],
               closed_with = None, gamertag_var = Str ''Alice''\<rparr>),
         (2, \<lparr>readyState = 1,
               sent = [Join_evt (Str ''Alice''), Participants_list [Str ''Alice'']],
               closed_with = None, gamertag_var = Null\<rparr>)],
      logged = [Joined (Str ''Alice'')]\<rparr>"
  unfolding alice_only_def two_sockets_state by (simp add: handler_defs)

lemma alice_bob_state:
  "alice_bob =
     \<lparr>sm = \<lparr>minecraftData = None,
             clients = [(1, \<lparr>gamertag = Str ''Alice'', joinedAt = 0, lastActivity = 0,
                            messageCount = 0\<rparr>),
                        (2, \<lparr>gamertag = Str ''Bob'', joinedAt = 1, lastActivity = 1,
                            messageCount = 0\<rparr>)],
             pttStates = [(Str ''Alice'', \<lparr>ptt_isTalking = JBool True, isMuted = JBool False\<rparr>),
                          (Str ''Bob'', \<lparr>ptt_isTalking = JBool True, isMuted = JBool False\<rparr>)],
             voiceStates = [(Str ''Alice'', \<lparr>isTalking = JBool False, volume = Num 0\<rparr>),
                            (Str ''Bob'', \<lparr>isTalking = JBool False, volume = Num 0\<rparr>)],
             rateLimits = [(1, \<lparr>count = 1, resetAt = 1000\<rparr>),
                           (2, \<lparr>count = 1, resetAt = 1001\<rparr>)]\<rparr>,
      wss_clients =
        [(1, \<lparr>readyState = 1,
               sent = [Participants_list [Str ''Alice''], Participants_list [Str ''Alice''],
                       Join_evt (Str ''Bob''), Participants_list [Str ''Alice'', Str ''Bob'']],
               closed_with = None, gamertag_var = Str ''Alice''\<rparr>),
         (2, \<lparr>readyState = 1,
               sent = [Join_evt (Str ''Alice''), Participants_list [Str ''Alice''],
                       Participants_list [Str ''Alice'', Str ''Bob''],
                       Participants_list [Str ''Alice'', Str ''Bob'']],
               closed_with = None, gamertag_var = Str ''Bob''\<rparr>)],
      logged = [Joined (Str ''Alice''), Joined (Str ''Bob'')]\<rparr>"
  unfolding alice_bob_def alice_only_state by (simp add: handler_defs)

lemma reachable_two_sockets: "reachable mx two_sockets"
  unfolding two_sockets_def
  by (intro reachable.connection reachable.start) (simp_all add: handler_defs)

lemma reachable_alice_only: "reachable 200 alice_only"
  unfolding alice_only_def
  by (rule reachable.message [OF reachable_two_sockets, where k = "\<lparr>readyState = 1, sent = [], closed_with = None, gamertag_var = Null\<rparr>"])
     (simp_all add: two_sockets_state socket_of_def)

lemma reachable_alice_bob: "reachable 200 alice_bob"
  unfolding alice_bob_def
  by (rule reachable.message [OF reachable_alice_only, where k = "\<lparr>readyState = 1,
               sent = [Join_evt (Str ''Alice''), Participants_list [Str ''Alice'']],
               closed_with = None, gamertag_var = Null\<rparr>"])
     (simp_all add: alice_only_state socket_of_def)

section \<open>Deregistration\<close>

lemma removeClient_unregistered: "map_get ws (clients s) = None \<Longrightarrow> removeClient ws s = s"
  by (simp add: removeClient_def)

lemma removeClient_clients_get [simp]: "map_get ws (clients (removeClient ws s)) = None"
  by (auto simp: removeClient_def map_get_map_delete split: option.splits)

lemma removeClient_twice: "removeClient ws (removeClient ws s) = removeClient ws s"
  by (rule removeClient_unregistered) simp

lemma findConnection_after_removeClient:
  assumes "distinct (getParticipants s)" and "map_get ws (clients s) = Some cd"
  shows "findConnection (gamertag cd) (clients (removeClient ws s)) = None"
proof -
  have inj: "inj_on (\<lambda>e. gamertag (snd e)) (set (clients s))"
    using assms(1) by (simp add: getParticipants_def distinct_map)
  have mem: "(ws, cd) \<in> set (clients s)" using assms(2) by (rule map_get_mem)
  show ?thesis
    unfolding findConnection_None_iff
  proof
    assume "gamertag cd \<in> (\<lambda>e. gamertag (snd e)) ` set (clients (removeClient ws s))"
    then obtain e where e: "e \<in> set (clients s)" "fst e \<noteq> ws" "gamertag (snd e) = gamertag cd"
      using assms(2) by (auto simp: removeClient_def map_delete_def)
    have "e = (ws, cd)" using inj_onD [OF inj, of e "(ws, cd)"] e(1,3) mem by simp
    then show False using e(2) by simp
  qed
qed

text \<open>
  Claim C4. \<open>removeClient\<close> (the spec's \<open>deregister\<close>) of a registered connection
  deletes its entry of \<open>clients\<close>, the PTT and voice entries of its identity and its
  rate window, and nothing else; of a connection that is not registered it changes
  nothing. A second call changes nothing. In a reachable state, after the removal the
  scan for the connection registered under that identity finds none. The function has no
  path that throws.
\<close>

theorem removeClient_deregisters:
  "(map_get ws (clients s) = Some cd \<longrightarrow>
      removeClient ws s =
        s\<lparr>pttStates := map_delete (gamertag cd) (pttStates s),
          voiceStates := map_delete (gamertag cd) (voiceStates s),
          rateLimits := map_delete ws (rateLimits s),
          clients := map_delete ws (clients s)\<rparr>
      \<and> map_get ws (clients (removeClient ws s)) = None
      \<and> map_get (gamertag cd) (pttStates (removeClient ws s)) = None
      \<and> map_get (gamertag cd) (voiceStates (removeClient ws s)) = None
      \<and> map_get ws (rateLimits (removeClient ws s)) = None)
   \<and> (map_get ws (clients s) = None \<longrightarrow> removeClient ws s = s)
   \<and> removeClient ws (removeClient ws s) = removeClient ws s
   \<and> (reachable mx srv \<and> map_get ws (clients (sm srv)) = Some cd' \<longrightarrow>
        findConnection (gamertag cd') (clients (removeClient ws (sm srv))) = None)"
proof (intro conjI impI)
  assume reg: "map_get ws (clients s) = Some cd"
  then show "removeClient ws s =
        s\<lparr>pttStates := map_delete (gamertag cd) (pttStates s),
          voiceStates := map_delete (gamertag cd) (voiceStates s),
          rateLimits := map_delete ws (rateLimits s),
          clients := map_delete ws (clients s)\<rparr>"
    by (simp add: removeClient_def)
  show "map_get ws (clients (removeClient ws s)) = None" by simp
  show "map_get (gamertag cd) (pttStates (removeClient ws s)) = None"
    using reg by (simp add: removeClient_def map_get_map_delete)
  show "map_get (gamertag cd) (voiceStates (removeClient ws s)) = None"
    using reg by (simp add: removeClient_def map_get_map_delete)
  show "map_get ws (rateLimits (removeClient ws s)) = None"
    using reg by (simp add: removeClient_def map_get_map_delete)
next
  assume "map_get ws (clients s) = None"
  then show "removeClient ws s = s" by (rule removeClient_unregistered)
next
  show "removeClient ws (removeClient ws s) = removeClient ws s" by (rule removeClient_twice)
next
  assume h: "reachable mx srv \<and> map_get ws (clients (sm srv)) = Some cd'"
  then have "distinct (getParticipants (sm srv))"
    using reachable_wf [of mx srv] by (simp add: coherent_def coherent_core_def)
  then show "findConnection (gamertag cd') (clients (removeClient ws (sm srv))) = None"
    using h by (simp add: findConnection_after_removeClient)
qed

theorem removeClient_deregisters_witness:
  "reachable 200 alice_bob
   \<and> map_get 2 (clients (sm alice_bob)) =
       Some \<lparr>gamertag = Str ''Bob'', joinedAt = 1, lastActivity = 1, messageCount = 0\<rparr>
   \<and> map_get 3 (clients (sm alice_bob)) = None
   \<and> removeClient 3 (sm alice_bob) = sm alice_bob
   \<and> getParticipants (removeClient 2 (sm alice_bob)) = [Str ''Alice'']
   \<and> map_get (Str ''Bob'') (pttStates (removeClient 2 (sm alice_bob))) = None
   \<and> map_get (Str ''Bob'') (voiceStates (removeClient 2 (sm alice_bob))) = None
   \<and> map_get 2 (rateLimits (removeClient 2 (sm alice_bob))) = None
   \<and> removeClient 2 (removeClient 2 (sm alice_bob)) = removeClient 2 (sm alice_bob)
   \<and> findConnection (Str ''Bob'') (clients (removeClient 2 (sm alice_bob))) = None"
proof -
  have reg: "map_get 2 (clients (sm alice_bob)) =
       Some \<lparr>gamertag = Str ''Bob'', joinedAt = 1, lastActivity = 1, messageCount = 0\<rparr>"
    by (simp add: alice_bob_state)
  have unreg: "map_get 3 (clients (sm alice_bob)) = None"
    by (simp add: alice_bob_state)
  note a = removeClient_deregisters [of 2 "sm alice_bob"
      "\<lparr>gamertag = Str ''Bob'', joinedAt = 1, lastActivity = 1, messageCount = 0\<rparr>"
      200 alice_bob
      "\<lparr>gamertag = Str ''Bob'', joinedAt = 1, lastActivity = 1, messageCount = 0\<rparr>"]
  note b = removeClient_deregisters [of 3 "sm alice_bob"
      "\<lparr>gamertag = Str ''Bob'', joinedAt = 1, lastActivity = 1, messageCount = 0\<rparr>"
      200 alice_bob
      "\<lparr>gamertag = Str ''Bob'', joinedAt = 1, lastActivity = 1, messageCount = 0\<rparr>"]
  have list: "getParticipants (removeClient 2 (sm alice_bob)) = [Str ''Alice'']"
    by (simp add: alice_bob_state getParticipants_def removeClient_def map_delete_def)
  have id: "gamertag \<lparr>gamertag = Str ''Bob'', joinedAt = 1, lastActivity = 1, messageCount = 0\<rparr>
      = Str ''Bob''" by simp
  show ?thesis
    using a [unfolded id] b reg unreg reachable_alice_bob list by blast
qed

section \<open>Joining under an identity that is taken\<close>

subsection \<open>A message the rate limiter allows\<close>

lemma on_message_allowed:
  "fst (checkRateLimit now ws (sm srv)) \<Longrightarrow>
   on_message mx now ws (Parsed d) srv = dispatch mx now ws d (before_dispatch now ws srv)"
  by (simp add: on_message_def before_dispatch_def split_beta Let_def)

lemma checkRateLimit_participants [simp]:
  "getParticipants (snd (checkRateLimit now ws s)) = getParticipants s"
  by (simp add: getParticipants_def)

lemma before_dispatch_simps [simp]:
  "socket_of c (before_dispatch now ws srv) = socket_of c srv"
  "wss_clients (before_dispatch now ws srv) = wss_clients srv"
  "logged (before_dispatch now ws srv) = logged srv"
  "closure_gamertag c (before_dispatch now ws srv) = closure_gamertag c srv"
  "getParticipants (sm (before_dispatch now ws srv)) = getParticipants (sm srv)"
  "pttStates (sm (before_dispatch now ws srv)) = pttStates (sm srv)"
  "voiceStates (sm (before_dispatch now ws srv)) = voiceStates (sm srv)"
  "minecraftData (sm (before_dispatch now ws srv)) = minecraftData (sm srv)"
  "map fst (clients (sm (before_dispatch now ws srv))) = map fst (clients (sm srv))"
  by (simp_all add: before_dispatch_def closure_gamertag_def)

lemma before_dispatch_length [simp]:
  "length (clients (sm (before_dispatch now ws srv))) = length (clients (sm srv))"
  using before_dispatch_simps(9) [of now ws srv] by (metis length_map)

lemma before_dispatch_get:
  "map_get c (clients (sm (before_dispatch now ws srv))) =
     (if c = ws
      then map_option (\<lambda>cd. cd\<lparr>lastActivity := now, messageCount := messageCount cd + 1\<rparr>)
             (map_get c (clients (sm srv)))
      else map_get c (clients (sm srv)))"
  by (simp add: before_dispatch_def updateActivity_get)

lemma before_dispatch_taken [simp]:
  "isGamertagTaken g (sm (before_dispatch now ws srv)) = isGamertagTaken g (sm srv)"
  by (simp add: isGamertagTaken_iff)

lemma before_dispatch_identity [simp]:
  "identity_of c (sm (before_dispatch now ws srv)) = identity_of c (sm srv)"
  by (auto simp: identity_of_def before_dispatch_get option.map_comp comp_def)

subsection \<open>The join branch\<close>

lemma addClient_taken:
  "isGamertagTaken g s \<Longrightarrow>
   addClient mx now ws g s =
     Inl (if mx \<le> int (length (clients s)) then Server_at_capacity else Gamertag_already_in_use)"
  by (simp add: addClient_def)

lemma registered_taken: "map_get a (clients s) = Some cd \<Longrightarrow> isGamertagTaken (gamertag cd) s"
  by (force simp: isGamertagTaken_iff getParticipants_def dest: map_get_mem)

lemma dispatch_join_failed:
  "msg_type d = Str ''join'' \<Longrightarrow> addClient mx now ws (msg_gamertag d) (sm srv) = Inl e \<Longrightarrow>
   dispatch mx now ws d srv =
     ws_close ws 1008 (message e)
       (ws_send ws (Error_msg (message e)) (log_call (Join_failed (msg_gamertag d) e) srv))"
  by (simp add: dispatch_def Let_def)

text \<open>
  Claim C1. Let a connection be registered under an identity and let another connection
  send a join message for that identity. The join branch leaves the state manager as it
  is, hands the sender an error message and closes the sender's socket with code 1008
  (the error is that of the capacity check when the server is also full). For a message
  that the rate limiter allows, the whole handler leaves the identity list, the entry of
  the first registrant and the PTT and voice tables as they were, and does the same to
  the sender's socket. The registration check compares the identity with \<open>===\<close>: an
  identity is taken exactly when it is in the identity list, and strings are equal only
  character by character.
\<close>

theorem duplicate_join_rejected:
  assumes "map_get a (clients (sm srv)) = Some cd" and "b \<noteq> a" and "socket_of b srv = Some k"
    and "msg_type d = Str ''join''" and "msg_gamertag d = gamertag cd"
    and "e = (if mx \<le> int (length (clients (sm srv))) then Server_at_capacity
              else Gamertag_already_in_use)"
    and "k' = (if readyState k = 1
               then k\<lparr>sent := sent k @ [Error_msg (message e)], readyState := 2,
                      closed_with := Some (1008, message e)\<rparr>
               else k\<lparr>sent := sent k @ [Error_msg (message e)]\<rparr>)"
  shows "sm (dispatch mx now b d srv) = sm srv
     \<and> socket_of b (dispatch mx now b d srv) = Some k'
     \<and> (fst (checkRateLimit now b (sm srv)) \<longrightarrow>
          getParticipants (sm (on_message mx now b (Parsed d) srv)) = getParticipants (sm srv)
        \<and> map_get a (clients (sm (on_message mx now b (Parsed d) srv))) = Some cd
        \<and> pttStates (sm (on_message mx now b (Parsed d) srv)) = pttStates (sm srv)
        \<and> voiceStates (sm (on_message mx now b (Parsed d) srv)) = voiceStates (sm srv)
        \<and> socket_of b (on_message mx now b (Parsed d) srv) = Some k')
     \<and> isGamertagTaken g (sm srv) = (g \<in> set (getParticipants (sm srv)))"
proof -
  have fail: "addClient mx now b (msg_gamertag d) (sm srv) = Inl e"
    using addClient_taken [OF registered_taken [OF assms(1)]] assms(5,6) by simp
  have d1: "dispatch mx now b d srv =
     ws_close b 1008 (message e)
       (ws_send b (Error_msg (message e)) (log_call (Join_failed (msg_gamertag d) e) srv))"
    using dispatch_join_failed [OF assms(4) fail] .
  let ?pre = "before_dispatch now b srv"
  have a': "map_get a (clients (sm ?pre)) = Some cd"
    using assms(1,2) by (simp add: before_dispatch_get)
  have fail': "addClient mx now b (msg_gamertag d) (sm ?pre) = Inl e"
    using addClient_taken [OF registered_taken [OF a']] assms(5,6) by simp
  have d2: "dispatch mx now b d ?pre =
     ws_close b 1008 (message e)
       (ws_send b (Error_msg (message e)) (log_call (Join_failed (msg_gamertag d) e) ?pre))"
    using dispatch_join_failed [OF assms(4) fail'] .
  have s1: "sm (dispatch mx now b d srv) = sm srv" by (simp add: d1)
  have k1: "socket_of b (dispatch mx now b d srv) = Some k'"
    using assms(3,7) by (simp add: d1 socket_of_ops)
  have s2: "sm (dispatch mx now b d ?pre) = sm ?pre" by (simp add: d2)
  have k2: "socket_of b (dispatch mx now b d ?pre) = Some k'"
    using assms(3,7) by (simp add: d2 socket_of_ops)
  show ?thesis
    using s1 k1 s2 k2 a' by (simp add: on_message_allowed isGamertagTaken_iff)
qed

theorem duplicate_join_rejected_witness:
  "map_get 1 (clients (sm alice_only)) =
     Some \<lparr>gamertag = Str ''Alice'', joinedAt = 0, lastActivity = 0, messageCount = 0\<rparr>
   \<and> (2::nat) \<noteq> 1
   \<and> socket_of 2 alice_only =
       Some \<lparr>readyState = 1,
             sent = [Join_evt (Str ''Alice''), Participants_list [Str ''Alice'']],
             closed_with = None, gamertag_var = Null\<rparr>
   \<and> fst (checkRateLimit 5 2 (sm alice_only))
   \<and> getParticipants (sm (on_message 200 5 2 (join_msg (Str ''Alice'')) alice_only))
       = [Str ''Alice'']
   \<and> map_get 1 (clients (sm (on_message 200 5 2 (join_msg (Str ''Alice'')) alice_only))) =
       Some \<lparr>gamertag = Str ''Alice'', joinedAt = 0, lastActivity = 0, messageCount = 0\<rparr>
   \<and> socket_of 2 (on_message 200 5 2 (join_msg (Str ''Alice'')) alice_only) =
       Some \<lparr>readyState = 2,
             sent = [Join_evt (Str ''Alice''), Participants_list [Str ''Alice''],
                     Error_msg ''Gamertag already in use''],
             closed_with = Some (1008, ''Gamertag already in use''), gamertag_var = Null\<rparr>
   \<and> \<not> isGamertagTaken (Str ''alice'') (sm alice_only)"
proof -
  let ?cd = "\<lparr>gamertag = Str ''Alice'', joinedAt = 0, lastActivity = 0, messageCount = 0\<rparr>"
  let ?k = "\<lparr>readyState = 1,
             sent = [Join_evt (Str ''Alice''), Participants_list [Str ''Alice'']],
             closed_with = None, gamertag_var = Null\<rparr>"
  let ?d = "(msg_of_type ''join'')\<lparr>msg_gamertag := Str ''Alice''\<rparr>"
  have h1: "map_get 1 (clients (sm alice_only)) = Some ?cd" by (simp add: alice_only_state)
  have h2: "(2::nat) \<noteq> 1" by simp
  have h3: "socket_of 2 alice_only = Some ?k" by (simp add: alice_only_state socket_of_def)
  have h4: "msg_type ?d = Str ''join''" by (simp add: msg_of_type_def)
  have h5: "msg_gamertag ?d = gamertag ?cd" by simp
  have h6: "Gamertag_already_in_use =
      (if 200 \<le> int (length (clients (sm alice_only))) then Server_at_capacity
       else Gamertag_already_in_use)" by (simp add: alice_only_state)
  have h7: "?k\<lparr>sent := sent ?k @ [Error_msg (message Gamertag_already_in_use)], readyState := 2,
                closed_with := Some (1008, message Gamertag_already_in_use)\<rparr> =
      (if readyState ?k = 1
       then ?k\<lparr>sent := sent ?k @ [Error_msg (message Gamertag_already_in_use)], readyState := 2,
                closed_with := Some (1008, message Gamertag_already_in_use)\<rparr>
       else ?k\<lparr>sent := sent ?k @ [Error_msg (message Gamertag_already_in_use)]\<rparr>)" by simp
  have h8: "fst (checkRateLimit 5 2 (sm alice_only))"
    by (simp add: alice_only_state handler_defs)
  have list: "getParticipants (sm alice_only) = [Str ''Alice'']"
    by (simp add: alice_only_state getParticipants_def)
  note t = duplicate_join_rejected [OF h1 h2 h3 h4 h5 h6 h7, of 5 "Str ''alice''"]
  show ?thesis
    using t h1 h3 h8 list by (simp add: join_msg_def)
qed

section \<open>A message that does not parse\<close>

lemma window_of_updateActivity [simp]: "window_of ws (updateActivity now c s) = window_of ws s"
  by (simp add: window_of_def)

lemma wss_clients_log [simp]: "wss_clients (log_call l srv) = wss_clients srv"
  by (simp add: log_call_def)

text \<open>
  Claim C5 says that parsing comes first, so that a message that fails to parse changes
  no state. In the handler the rate limit and the activity update come before
  \<open>JSON.parse\<close>. Alice, registered on socket 1 with one message counted, sends a text that
  does not parse at time 5: her window goes to count 2, her \<open>lastActivity\<close> to 5 and her
  \<open>messageCount\<close> to 1.
\<close>

theorem unparsable_message_counterexample:
  "window_of 1 (sm alice_only) = Some \<lparr>count = 1, resetAt = 1000\<rparr>
   \<and> window_of 1 (sm (on_message 200 5 1 Unparsable alice_only)) = Some \<lparr>count = 2, resetAt = 1000\<rparr>
   \<and> map_get 1 (clients (sm alice_only)) =
       Some \<lparr>gamertag = Str ''Alice'', joinedAt = 0, lastActivity = 0, messageCount = 0\<rparr>
   \<and> map_get 1 (clients (sm (on_message 200 5 1 Unparsable alice_only))) =
       Some \<lparr>gamertag = Str ''Alice'', joinedAt = 0, lastActivity = 5, messageCount = 1\<rparr>"
  by (simp add: alice_only_state window_of_def handler_defs)

text \<open>
  Claim C5, amended. For a message whose body fails to parse, the rate limit is checked
  first and its window is consumed, as for any message. If the limiter allows the
  message, the activity of a registered sender is updated (\<open>lastActivity\<close> is the time of
  the message, \<open>messageCount\<close> goes up by one), the failure is logged, nothing is sent to
  any socket and nothing else changes. If the limiter rejects it, the sender is handed
  the rate-limit error and the registry is not touched.
\<close>

theorem unparsable_message_effects:
  "window_of ws (sm (on_message mx now ws Unparsable srv)) =
     Some (case window_of ws (sm srv) of
             None \<Rightarrow> \<lparr>count = 1, resetAt = now + 1000\<rparr>
           | Some l \<Rightarrow> if now > resetAt l then \<lparr>count = 1, resetAt = now + 1000\<rparr>
                       else l\<lparr>count := count l + 1\<rparr>)
   \<and> (fst (checkRateLimit now ws (sm srv)) \<longrightarrow>
        wss_clients (on_message mx now ws Unparsable srv) = wss_clients srv
      \<and> logged (on_message mx now ws Unparsable srv) =
          logged srv @ [Message_processing_error (closure_gamertag ws srv)]
      \<and> map_get ws (clients (sm (on_message mx now ws Unparsable srv))) =
          map_option (\<lambda>cd. cd\<lparr>lastActivity := now, messageCount := messageCount cd + 1\<rparr>)
            (map_get ws (clients (sm srv)))
      \<and> (\<forall>c. c \<noteq> ws \<longrightarrow> map_get c (clients (sm (on_message mx now ws Unparsable srv))) =
                          map_get c (clients (sm srv)))
      \<and> getParticipants (sm (on_message mx now ws Unparsable srv)) = getParticipants (sm srv)
      \<and> pttStates (sm (on_message mx now ws Unparsable srv)) = pttStates (sm srv)
      \<and> voiceStates (sm (on_message mx now ws Unparsable srv)) = voiceStates (sm srv)
      \<and> minecraftData (sm (on_message mx now ws Unparsable srv)) = minecraftData (sm srv))
   \<and> (\<not> fst (checkRateLimit now ws (sm srv)) \<longrightarrow>
        clients (sm (on_message mx now ws Unparsable srv)) = clients (sm srv)
      \<and> socket_of ws (on_message mx now ws Unparsable srv) =
          map_option (\<lambda>k. k\<lparr>sent := sent k @ [Error_msg ''Rate limit exceeded'']\<rparr>)
            (socket_of ws srv))"
proof -
  have w: "window_of ws (sm (on_message mx now ws Unparsable srv)) =
      window_of ws (snd (checkRateLimit now ws (sm srv)))"
    by (simp add: on_message_def split_beta Let_def)
  have yes: "on_message mx now ws Unparsable srv =
      log_call (Message_processing_error (closure_gamertag ws srv)) (before_dispatch now ws srv)"
    if "fst (checkRateLimit now ws (sm srv))"
    using that by (simp add: on_message_def before_dispatch_def split_beta Let_def)
  have no: "on_message mx now ws Unparsable srv =
      ws_send ws (Error_msg ''Rate limit exceeded'')
        (log_call (Rate_limit_exceeded (closure_gamertag ws srv))
           (srv\<lparr>sm := snd (checkRateLimit now ws (sm srv))\<rparr>))"
    if "\<not> fst (checkRateLimit now ws (sm srv))"
    using that by (simp add: on_message_def split_beta Let_def)
  show ?thesis
  proof (intro conjI impI allI)
    show "window_of ws (sm (on_message mx now ws Unparsable srv)) =
     Some (case window_of ws (sm srv) of
             None \<Rightarrow> \<lparr>count = 1, resetAt = now + 1000\<rparr>
           | Some l \<Rightarrow> if now > resetAt l then \<lparr>count = 1, resetAt = now + 1000\<rparr>
                       else l\<lparr>count := count l + 1\<rparr>)"
      using w checkRateLimit_window [of ws now "sm srv", unfolded RATE_LIMIT_WINDOW_def] by simp
  qed (simp_all add: yes no before_dispatch_get socket_of_ops)
qed

theorem unparsable_message_effects_witness:
  "fst (checkRateLimit 5 1 (sm alice_only))
   \<and> window_of 1 (sm (on_message 200 5 1 Unparsable alice_only)) = Some \<lparr>count = 2, resetAt = 1000\<rparr>
   \<and> wss_clients (on_message 200 5 1 Unparsable alice_only) = wss_clients alice_only
   \<and> logged (on_message 200 5 1 Unparsable alice_only) =
       [Joined (Str ''Alice''), Message_processing_error (Str ''Alice'')]
   \<and> map_get 1 (clients (sm (on_message 200 5 1 Unparsable alice_only))) =
       Some \<lparr>gamertag = Str ''Alice'', joinedAt = 0, lastActivity = 5, messageCount = 1\<rparr>
   \<and> pttStates (sm (on_message 200 5 1 Unparsable alice_only)) = pttStates (sm alice_only)"
proof -
  have h: "fst (checkRateLimit 5 1 (sm alice_only))"
    by (simp add: alice_only_state handler_defs)
  have w: "window_of 1 (sm alice_only) = Some \<lparr>count = 1, resetAt = 1000\<rparr>"
    by (simp add: alice_only_state window_of_def)
  have c: "map_get 1 (clients (sm alice_only)) =
       Some \<lparr>gamertag = Str ''Alice'', joinedAt = 0, lastActivity = 0, messageCount = 0\<rparr>"
    by (simp add: alice_only_state)
  have g: "closure_gamertag 1 alice_only = Str ''Alice''" "logged alice_only = [Joined (Str ''Alice'')]"
    by (simp_all add: alice_only_state closure_gamertag_def socket_of_def)
  show ?thesis
    using unparsable_message_effects [of 1 200 5 alice_only] h w c g by simp
qed

section \<open>A request for the participants\<close>

lemma dispatch_request_participants:
  "msg_type d = Str ''request-participants'' \<Longrightarrow>
   dispatch mx now ws d srv = ws_send ws (Participants_list (getParticipants (sm srv))) srv"
  by (simp add: dispatch_def)

text \<open>
  Claim C6 says that a request-participants message is answered to the requester and
  then broadcast to all. The branch has the one \<open>ws.send\<close>. With Alice on socket 1 and
  Bob on socket 2, both open, Alice's request at time 5 appends the list to what socket
  1 was sent, and socket 2 is sent nothing.
\<close>

theorem request_participants_counterexample:
  "map (\<lambda>e. (fst e, readyState (snd e), sent (snd e))) (wss_clients alice_bob) =
     [(1, 1, [Participants_list [Str ''Alice''], Participants_list [Str ''Alice''],
              Join_evt (Str ''Bob''), Participants_list [Str ''Alice'', Str ''Bob'']]),
      (2, 1, [Join_evt (Str ''Alice''), Participants_list [Str ''Alice''],
              Participants_list [Str ''Alice'', Str ''Bob''],
              Participants_list [Str ''Alice'', Str ''Bob'']])]
   \<and> map (\<lambda>e. (fst e, readyState (snd e), sent (snd e)))
         (wss_clients (on_message 200 5 1 (Parsed (msg_of_type ''request-participants'')) alice_bob)) =
     [(1, 1, [Participants_list [Str ''Alice''], Participants_list [Str ''Alice''],
              Join_evt (Str ''Bob''), Participants_list [Str ''Alice'', Str ''Bob''],
              Participants_list [Str ''Alice'', Str ''Bob'']]),
      (2, 1, [Join_evt (Str ''Alice''), Participants_list [Str ''Alice''],
              Participants_list [Str ''Alice'', Str ''Bob''],
              Participants_list [Str ''Alice'', Str ''Bob'']])]"
  by (simp add: alice_bob_state handler_defs)

text \<open>
  Claim C6, amended. For every request-participants message that the rate limiter
  allows, the server hands the current identity list to the requester and to no other
  socket; the identity list, the PTT and voice tables and the log stay as they were.
\<close>

theorem request_participants_reply:
  assumes "msg_type d = Str ''request-participants''" and "fst (checkRateLimit now ws (sm srv))"
  shows "socket_of c (on_message mx now ws (Parsed d) srv) =
           (if c = ws
            then map_option (\<lambda>k. k\<lparr>sent := sent k @ [Participants_list (getParticipants (sm srv))]\<rparr>)
                   (socket_of c srv)
            else socket_of c srv)
       \<and> getParticipants (sm (on_message mx now ws (Parsed d) srv)) = getParticipants (sm srv)
       \<and> pttStates (sm (on_message mx now ws (Parsed d) srv)) = pttStates (sm srv)
       \<and> voiceStates (sm (on_message mx now ws (Parsed d) srv)) = voiceStates (sm srv)
       \<and> logged (on_message mx now ws (Parsed d) srv) = logged srv"
  using assms
  by (simp add: on_message_allowed dispatch_request_participants socket_of_ops)

theorem request_participants_reply_witness:
  "msg_type (msg_of_type ''request-participants'') = Str ''request-participants''
   \<and> fst (checkRateLimit 5 1 (sm alice_bob))
   \<and> socket_of 1 (on_message 200 5 1 (Parsed (msg_of_type ''request-participants'')) alice_bob) =
       Some \<lparr>readyState = 1,
             sent = [Participants_list [Str ''Alice''], Participants_list [Str ''Alice''],
                     Join_evt (Str ''Bob''), Participants_list [Str ''Alice'', Str ''Bob''],
                     Participants_list [Str ''Alice'', Str ''Bob'']],
             closed_with = None, gamertag_var = Str ''Alice''\<rparr>
   \<and> socket_of 2 (on_message 200 5 1 (Parsed (msg_of_type ''request-participants'')) alice_bob) =
       socket_of 2 alice_bob
   \<and> getParticipants (sm (on_message 200 5 1 (Parsed (msg_of_type ''request-participants'')) alice_bob))
       = [Str ''Alice'', Str ''Bob'']"
proof -
  have h1: "msg_type (msg_of_type ''request-participants'') = Str ''request-participants''"
    by (simp add: msg_of_type_def)
  have h2: "fst (checkRateLimit 5 1 (sm alice_bob))"
    by (simp add: alice_bob_state handler_defs)
  have list: "getParticipants (sm alice_bob) = [Str ''Alice'', Str ''Bob'']"
    by (simp add: alice_bob_state getParticipants_def)
  have k: "socket_of 1 alice_bob =
       Some \<lparr>readyState = 1,
             sent = [Participants_list [Str ''Alice''], Participants_list [Str ''Alice''],
                     Join_evt (Str ''Bob''), Participants_list [Str ''Alice'', Str ''Bob'']],
             closed_with = None, gamertag_var = Str ''Alice''\<rparr>"
    by (simp add: alice_bob_state socket_of_def)
  show ?thesis
    using request_participants_reply [OF h1 h2, of 1 200]
          request_participants_reply [OF h1 h2, of 2 200] h1 h2 list k
    by simp
qed

section \<open>Leaving, and closing after leaving\<close>

subsection \<open>The leave branch and the close handler\<close>

lemma dispatch_leave:
  "msg_type d = Str ''leave'' \<Longrightarrow>
   dispatch mx now ws d srv =
     broadcast ws (Leave_evt (closure_gamertag ws srv))
       (log_call (Left (closure_gamertag ws srv)) (srv\<lparr>sm := removeClient ws (sm srv)\<rparr>))"
  by (simp add: dispatch_def Let_def)

lemma closure_gamertag_ops [simp]:
  "closure_gamertag c (srv\<lparr>sm := s\<rparr>) = closure_gamertag c srv"
  "closure_gamertag c (ws_send ws m srv) = closure_gamertag c srv"
  "closure_gamertag c (ws_close ws code reason srv) = closure_gamertag c srv"
  "closure_gamertag c (log_call l srv) = closure_gamertag c srv"
  "closure_gamertag c (broadcast ws m srv) = closure_gamertag c srv"
  "closure_gamertag c (broadcastToAll m srv) = closure_gamertag c srv"
  by (simp_all add: closure_gamertag_vars)

lemma socket_of_mark_closed:
  "socket_of c (srv\<lparr>wss_clients := on_socket ws f (wss_clients srv)\<rparr>) =
     (if c = ws then map_option f (socket_of c srv) else socket_of c srv)"
  by (simp add: socket_of_def map_get_on_socket)

lemma on_close_identified:
  "truthy (closure_gamertag ws srv) \<Longrightarrow>
   on_close ws srv =
     broadcastToAll (Participants_list (getParticipants (removeClient ws (sm srv))))
       (broadcast ws (Leave_evt (closure_gamertag ws srv))
          ((log_call (Disconnected (closure_gamertag ws srv))
             (srv\<lparr>wss_clients := on_socket ws (\<lambda>k. k\<lparr>readyState := 3\<rparr>) (wss_clients srv)\<rparr>))
           \<lparr>sm := removeClient ws (sm srv)\<rparr>))"
  by (simp add: on_close_def Let_def)

lemma on_close_anonymous:
  "\<not> truthy (closure_gamertag ws srv) \<Longrightarrow>
   on_close ws srv = srv\<lparr>wss_clients := on_socket ws (\<lambda>k. k\<lparr>readyState := 3\<rparr>) (wss_clients srv)\<rparr>"
  by (simp add: on_close_def Let_def)

lemma registered_closure_gamertag:
  "reachable mx srv \<Longrightarrow> map_get ws (clients (sm srv)) = Some cd \<Longrightarrow>
   closure_gamertag ws srv = gamertag cd"
  using reachable_wf [of mx srv] by (simp add: coherent_def coherent_core_def closure_gamertag_vars)

text \<open>
  Claim C3: a leave message on a registered connection deregisters it, broadcasts a
  leave event to the others and broadcasts the updated identity list to all. The branch
  stops after the leave event. With Alice on socket 1 and Bob on socket 2, both open,
  Bob's leave at time 5 takes him out of the identity list and appends the leave event to
  what socket 1 was sent; no socket is sent the list without Bob.
\<close>

theorem leave_sends_no_list:
  "getParticipants (sm alice_bob) = [Str ''Alice'', Str ''Bob'']
   \<and> getParticipants (sm (on_message 200 5 2 (Parsed (msg_of_type ''leave'')) alice_bob))
       = [Str ''Alice'']
   \<and> map (\<lambda>e. (fst e, readyState (snd e), sent (snd e)))
         (wss_clients (on_message 200 5 2 (Parsed (msg_of_type ''leave'')) alice_bob)) =
     [(1, 1, [Participants_list [Str ''Alice''], Participants_list [Str ''Alice''],
              Join_evt (Str ''Bob''), Participants_list [Str ''Alice'', Str ''Bob''],
              Leave_evt (Str ''Bob'')]),
      (2, 1, [Join_evt (Str ''Alice''), Participants_list [Str ''Alice''],
              Participants_list [Str ''Alice'', Str ''Bob''],
              Participants_list [Str ''Alice'', Str ''Bob'']])]"
  by (simp add: alice_bob_state handler_defs)

lemma empty_bob_state:
  "empty_bob =
     \<lparr>sm = \<lparr>minecraftData = None,
             clients = [(1, \<lparr>gamertag = Str [], joinedAt = 0, lastActivity = 0,
                            messageCount = 0\<rparr>),
                        (2, \<lparr>gamertag = Str ''Bob'', joinedAt = 1, lastActivity = 1,
                            messageCount = 0\<rparr>)],
             pttStates = [(Str [], \<lparr>ptt_isTalking = JBool True, isMuted = JBool False\<rparr>),
                          (Str ''Bob'', \<lparr>ptt_isTalking = JBool True, isMuted = JBool False\<rparr>)],
             voiceStates = [(Str [], \<lparr>isTalking = JBool False, volume = Num 0\<rparr>),
                            (Str ''Bob'', \<lparr>isTalking = JBool False, volume = Num 0\<rparr>)],
             rateLimits = [(1, \<lparr>count = 1, resetAt = 1000\<rparr>),
                           (2, \<lparr>count = 1, resetAt = 1001\<rparr>)]\<rparr>,
      wss_clients =
        [(1, \<lparr>readyState = 1,
               sent = [Participants_list [Str []], Participants_list [Str []],
                       Join_evt (Str ''Bob''), Participants_list [Str [], Str ''Bob'']],
               closed_with = None, gamertag_var = Str []\<rparr>),
         (2, \<lparr>readyState = 1,
               sent = [Join_evt (Str []), Participants_list [Str []],
                       Participants_list [Str [], Str ''Bob''],
                       Participants_list [Str [], Str ''Bob'']],
               closed_with = None, gamertag_var = Str ''Bob''\<rparr>)],
      logged = [Joined (Str []), Joined (Str ''Bob'')]\<rparr>"
  unfolding empty_bob_def two_sockets_state by (simp add: handler_defs)

text \<open>
  Claim C10 says that after a leave message of a registered connection the close of its
  socket broadcasts a second leave event and the identity list. The close handler does
  so only if the closure's \<open>gamertag\<close> is truthy, and a join under the empty string is
  accepted. Socket 1, registered under the empty string, sends leave at time 5 and then
  closes: socket 2, open, is sent the one leave event of the message and nothing at the
  close.
\<close>

theorem leave_then_close_counterexample:
  "identity_of 1 (sm empty_bob) = Some (Str [])
   \<and> map (\<lambda>e. (fst e, readyState (snd e), sent (snd e)))
         (wss_clients (on_message 200 5 1 (Parsed (msg_of_type ''leave'')) empty_bob)) =
     [(1, 1, [Participants_list [Str []], Participants_list [Str []],
              Join_evt (Str ''Bob''), Participants_list [Str [], Str ''Bob'']]),
      (2, 1, [Join_evt (Str []), Participants_list [Str []],
              Participants_list [Str [], Str ''Bob''],
              Participants_list [Str [], Str ''Bob''], Leave_evt (Str [])])]
   \<and> map (\<lambda>e. (fst e, readyState (snd e), sent (snd e)))
         (wss_clients (on_close 1 (on_message 200 5 1 (Parsed (msg_of_type ''leave'')) empty_bob))) =
     [(1, 3, [Participants_list [Str []], Participants_list [Str []],
              Join_evt (Str ''Bob''), Participants_list [Str [], Str ''Bob'']]),
      (2, 1, [Join_evt (Str []), Participants_list [Str []],
              Participants_list [Str [], Str ''Bob''],
              Participants_list [Str [], Str ''Bob''], Leave_evt (Str [])])]"
  by (simp add: empty_bob_state identity_of_def handler_defs)

text \<open>
  Claim C10, amended: the same for a connection registered under a truthy identity (a
  string that is not empty). In a reachable state, let such a connection send a leave
  message that the rate limiter allows. The message deregisters it and hands the leave
  event to every other open socket, and the closure's \<open>gamertag\<close> still holds the
  identity. In that state, and in any later state in which the variable holds the
  identity and the connection is not registered, the close of the socket leaves the
  state manager as it is (the removal finds nothing to remove) and hands every other
  open socket a second leave event for the identity, followed by the identity list.
\<close>

theorem leave_then_close_repeats_leave:
  assumes "reachable mx srv" and "map_get ws (clients (sm srv)) = Some cd"
    and "truthy (gamertag cd)"
    and "msg_type d = Str ''leave''" and "fst (checkRateLimit now ws (sm srv))"
    and "srv1 = on_message mx now ws (Parsed d) srv"
  shows "closure_gamertag ws srv1 = gamertag cd
     \<and> map_get ws (clients (sm srv1)) = None
     \<and> (\<forall>c k. c \<noteq> ws \<and> socket_of c srv = Some k \<and> readyState k = 1 \<longrightarrow>
            socket_of c srv1 = Some (k\<lparr>sent := sent k @ [Leave_evt (gamertag cd)]\<rparr>))
     \<and> (\<forall>srv2. closure_gamertag ws srv2 = gamertag cd \<and> map_get ws (clients (sm srv2)) = None \<longrightarrow>
            sm (on_close ws srv2) = sm srv2
          \<and> socket_of ws (on_close ws srv2) =
              map_option (\<lambda>k. k\<lparr>readyState := 3\<rparr>) (socket_of ws srv2)
          \<and> (\<forall>c k. c \<noteq> ws \<and> socket_of c srv2 = Some k \<and> readyState k = 1 \<longrightarrow>
                 socket_of c (on_close ws srv2) =
                   Some (k\<lparr>sent := sent k @ [Leave_evt (gamertag cd),
                                              Participants_list (getParticipants (sm srv2))]\<rparr>)))"
proof -
  let ?g = "gamertag cd"
  have g: "closure_gamertag ws srv = ?g"
    using registered_closure_gamertag [OF assms(1,2)] .
  have srv1: "srv1 = broadcast ws (Leave_evt ?g)
       (log_call (Left ?g)
          ((before_dispatch now ws srv)\<lparr>sm := removeClient ws (sm (before_dispatch now ws srv))\<rparr>))"
    using assms(4,5,6) g by (simp add: on_message_allowed dispatch_leave)
  have g1: "closure_gamertag ws srv1 = ?g" using g by (simp add: srv1)
  have u1: "map_get ws (clients (sm srv1)) = None" by (simp add: srv1)
  have first: "socket_of c srv1 = Some (k\<lparr>sent := sent k @ [Leave_evt ?g]\<rparr>)"
    if "c \<noteq> ws" "socket_of c srv = Some k" "readyState k = 1" for c k
    using that by (simp add: srv1 socket_of_ops)
  have later: "sm (on_close ws srv2) = sm srv2
      \<and> socket_of ws (on_close ws srv2) = map_option (\<lambda>k. k\<lparr>readyState := 3\<rparr>) (socket_of ws srv2)
      \<and> (\<forall>c k. c \<noteq> ws \<and> socket_of c srv2 = Some k \<and> readyState k = 1 \<longrightarrow>
             socket_of c (on_close ws srv2) =
               Some (k\<lparr>sent := sent k @ [Leave_evt ?g, Participants_list (getParticipants (sm srv2))]\<rparr>))"
    if v: "closure_gamertag ws srv2 = ?g" and u: "map_get ws (clients (sm srv2)) = None" for srv2
  proof -
    have t: "truthy (closure_gamertag ws srv2)" using v assms(3) by simp
    have r: "removeClient ws (sm srv2) = sm srv2" using u by (rule removeClient_unregistered)
    show ?thesis
      unfolding on_close_identified [OF t] r v
      by (simp add: socket_of_ops socket_of_mark_closed option.map_comp comp_def)
  qed
  show ?thesis
    using g1 u1 first later by blast
qed

theorem leave_then_close_repeats_leave_witness:
  "reachable 200 alice_bob
   \<and> map_get 2 (clients (sm alice_bob)) =
       Some \<lparr>gamertag = Str ''Bob'', joinedAt = 1, lastActivity = 1, messageCount = 0\<rparr>
   \<and> truthy (Str ''Bob'')
   \<and> fst (checkRateLimit 5 2 (sm alice_bob))
   \<and> closure_gamertag 2 (on_message 200 5 2 (Parsed (msg_of_type ''leave'')) alice_bob) = Str ''Bob''
   \<and> map_get 2 (clients (sm (on_message 200 5 2 (Parsed (msg_of_type ''leave'')) alice_bob))) = None
   \<and> sm (on_close 2 (on_message 200 5 2 (Parsed (msg_of_type ''leave'')) alice_bob)) =
       sm (on_message 200 5 2 (Parsed (msg_of_type ''leave'')) alice_bob)
   \<and> socket_of 1 (on_close 2 (on_message 200 5 2 (Parsed (msg_of_type ''leave'')) alice_bob)) =
       Some \<lparr>readyState = 1,
             sent = [Participants_list [Str ''Alice''], Participants_list [Str ''Alice''],
                     Join_evt (Str ''Bob''), Participants_list [Str ''Alice'', Str ''Bob''],
                     Leave_evt (Str ''Bob''), Leave_evt (Str ''Bob''),
                     Participants_list [Str ''Alice'']],
             closed_with = None, gamertag_var = Str ''Alice''\<rparr>"
proof -
  let ?cd = "\<lparr>gamertag = Str ''Bob'', joinedAt = 1, lastActivity = 1, messageCount = 0\<rparr>"
  let ?k = "\<lparr>readyState = 1,
             sent = [Participants_list [Str ''Alice''], Participants_list [Str ''Alice''],
                     Join_evt (Str ''Bob''), Participants_list [Str ''Alice'', Str ''Bob'']],
             closed_with = None, gamertag_var = Str ''Alice''\<rparr>"
  define srv1 where "srv1 = on_message 200 5 2 (Parsed (msg_of_type ''leave'')) alice_bob"
  have h2: "map_get 2 (clients (sm alice_bob)) = Some ?cd" by (simp add: alice_bob_state)
  have h3: "truthy (gamertag ?cd)" by simp
  have h4: "msg_type (msg_of_type ''leave'') = Str ''leave''" by (simp add: msg_of_type_def)
  have h5: "fst (checkRateLimit 5 2 (sm alice_bob))" by (simp add: alice_bob_state handler_defs)
  note t = leave_then_close_repeats_leave [OF reachable_alice_bob h2 h3 h4 h5 srv1_def]
  have k: "socket_of 1 alice_bob = Some ?k" by (simp add: alice_bob_state socket_of_def)
  have g1: "closure_gamertag 2 srv1 = Str ''Bob''" and u1: "map_get 2 (clients (sm srv1)) = None"
    using t by simp_all
  note first = t [THEN conjunct2, THEN conjunct2, THEN conjunct1, THEN spec, THEN spec, THEN mp,
      of 1 ?k]
  have k1: "socket_of 1 srv1 = Some (?k\<lparr>sent := sent ?k @ [Leave_evt (Str ''Bob'')]\<rparr>)"
    using first k by simp
  have list1: "getParticipants (sm srv1) = [Str ''Alice'']"
    by (simp add: srv1_def alice_bob_state handler_defs)
  note closing = t [THEN conjunct2, THEN conjunct2, THEN conjunct2, THEN spec, THEN mp, of srv1]
  have c: "sm (on_close 2 srv1) = sm srv1
     \<and> socket_of 2 (on_close 2 srv1) = map_option (\<lambda>k. k\<lparr>readyState := 3\<rparr>) (socket_of 2 srv1)
     \<and> (\<forall>c k. c \<noteq> 2 \<and> socket_of c srv1 = Some k \<and> readyState k = 1 \<longrightarrow>
            socket_of c (on_close 2 srv1) =
              Some (k\<lparr>sent := sent k @ [Leave_evt (gamertag ?cd),
                                         Participants_list (getParticipants (sm srv1))]\<rparr>))"
    using closing g1 u1 by simp
  note others = c [THEN conjunct2, THEN conjunct2, THEN spec, THEN spec, THEN mp,
      of 1 "?k\<lparr>sent := sent ?k @ [Leave_evt (Str ''Bob'')]\<rparr>"]
  have later: "sm (on_close 2 srv1) = sm srv1
      \<and> socket_of 1 (on_close 2 srv1) =
          Some (?k\<lparr>sent := sent ?k @ [Leave_evt (Str ''Bob''), Leave_evt (Str ''Bob''),
                                       Participants_list [Str ''Alice'']]\<rparr>)"
    using c others k1 list1 by simp
  show ?thesis
    using reachable_alice_bob h2 h5 g1 u1 later list1 unfolding srv1_def by simp
qed

section \<open>Snapshot ingestion\<close>

lemma find_snoc:
  "find P (xs @ [x]) = (case find P xs of Some y \<Rightarrow> Some y | None \<Rightarrow> if P x then Some x else None)"
  by (induction xs) auto

lemma last_record_Cons:
  "last_record g (p # ps) =
     (case last_record g ps of
        Some q \<Rightarrow> Some q
      | None \<Rightarrow> if truthy (name p) \<and> name p = g then Some p else None)"
  by (simp add: last_record_def find_snoc split: option.splits)

lemma upsert_players_ptt:
  "map_get g (pttStates (upsert_players ps s)) =
     (case last_record g ps of
        None \<Rightarrow> map_get g (pttStates s)
      | Some p \<Rightarrow> Some \<lparr>ptt_isTalking = JBool (truthy (data_isTalking p)),
                        isMuted = JBool (truthy (data_isMuted p))\<rparr>)"
proof (induction ps arbitrary: s)
  case Nil
  then show ?case by (simp add: last_record_def)
next
  case (Cons p ps)
  show ?case
    by (simp add: Cons.IH last_record_Cons upsert_player_def map_get_map_set split: option.splits)
qed

lemma upsert_players_voice:
  "map_get g (voiceStates (upsert_players ps s)) =
     (case last_record g ps of
        None \<Rightarrow> map_get g (voiceStates s)
      | Some p \<Rightarrow> Some \<lparr>isTalking = JBool (truthy (data_isTalking p)),
                        volume = (if is_number (data_voiceVolume p) then data_voiceVolume p
                                  else Num (- 100))\<rparr>)"
proof (induction ps arbitrary: s)
  case Nil
  then show ?case by (simp add: last_record_def)
next
  case (Cons p ps)
  show ?case
    by (simp add: Cons.IH last_record_Cons upsert_player_def map_get_map_set split: option.splits)
qed

text \<open>
  Claim C7. After a snapshot is posted, the PTT and voice entry of an identity are those
  of the last player record of the snapshot that carries this identity, among the records
  whose name is truthy (for a string: not empty); an identity that no such record
  carries keeps the entries it had. The fields are \<open>Boolean(isTalking)\<close>,
  \<open>Boolean(isMuted)\<close>, and the volume when it is a number, -100 otherwise (a missing
  volume is \<open>Undef\<close>). On a new server, after the snapshot with the one player Alice
  (muted, not talking, volume -30), \<open>GET /ptt-states\<close> answers with exactly Alice, not
  talking, muted, and \<open>GET /voice-states\<close> with exactly Alice, not talking, volume -30.
\<close>

theorem snapshot_ingestion_upserts:
  "map_get g (pttStates (sm (snd (post_minecraft_data b srv)))) =
     (case last_record g (case players b of Some ps \<Rightarrow> ps | None \<Rightarrow> []) of
        None \<Rightarrow> map_get g (pttStates (sm srv))
      | Some p \<Rightarrow> Some \<lparr>ptt_isTalking = JBool (truthy (data_isTalking p)),
                        isMuted = JBool (truthy (data_isMuted p))\<rparr>)
   \<and> map_get g (voiceStates (sm (snd (post_minecraft_data b srv)))) =
     (case last_record g (case players b of Some ps \<Rightarrow> ps | None \<Rightarrow> []) of
        None \<Rightarrow> map_get g (voiceStates (sm srv))
      | Some p \<Rightarrow> Some \<lparr>isTalking = JBool (truthy (data_isTalking p)),
                        volume = (if is_number (data_voiceVolume p) then data_voiceVolume p
                                  else Num (- 100))\<rparr>)
   \<and> get_ptt_states (snd (post_minecraft_data
         \<lparr>players = Some [\<lparr>name = Str ''Alice'', data_isTalking = JBool False,
                           data_isMuted = JBool True, data_voiceVolume = Num (- 30)\<rparr>]\<rparr>
         new_server))
       = [(Str ''Alice'', JBool False, JBool True)]
   \<and> get_voice_states (snd (post_minecraft_data
         \<lparr>players = Some [\<lparr>name = Str ''Alice'', data_isTalking = JBool False,
                           data_isMuted = JBool True, data_voiceVolume = Num (- 30)\<rparr>]\<rparr>
         new_server))
       = [(Str ''Alice'', JBool False, Num (- 30))]"
proof (intro conjI)
  show "map_get g (pttStates (sm (snd (post_minecraft_data b srv)))) =
     (case last_record g (case players b of Some ps \<Rightarrow> ps | None \<Rightarrow> []) of
        None \<Rightarrow> map_get g (pttStates (sm srv))
      | Some p \<Rightarrow> Some \<lparr>ptt_isTalking = JBool (truthy (data_isTalking p)),
                        isMuted = JBool (truthy (data_isMuted p))\<rparr>)"
    by (simp add: post_minecraft_data_def Let_def upsert_players_ptt split: option.splits)
  show "map_get g (voiceStates (sm (snd (post_minecraft_data b srv)))) =
     (case last_record g (case players b of Some ps \<Rightarrow> ps | None \<Rightarrow> []) of
        None \<Rightarrow> map_get g (voiceStates (sm srv))
      | Some p \<Rightarrow> Some \<lparr>isTalking = JBool (truthy (data_isTalking p)),
                        volume = (if is_number (data_voiceVolume p) then data_voiceVolume p
                                  else Num (- 100))\<rparr>)"
    by (simp add: post_minecraft_data_def Let_def upsert_players_voice split: option.splits)
qed (simp_all add: post_minecraft_data_def get_ptt_states_def get_voice_states_def
       upsert_player_def new_server_def new_StateManager_def Let_def)

section \<open>State that outlives or precedes a registration\<close>

subsection \<open>A second join of a registered connection\<close>

lemma addClient_free:
  "int (length (clients s)) < mx \<Longrightarrow> \<not> isGamertagTaken g s \<Longrightarrow>
   addClient mx now ws g s =
     Inr (s\<lparr>clients := map_set ws
                \<lparr>gamertag = g, joinedAt = now, lastActivity = now, messageCount = 0\<rparr> (clients s),
             pttStates := map_set g \<lparr>ptt_isTalking = JBool True, isMuted = JBool False\<rparr> (pttStates s),
             voiceStates := map_set g \<lparr>isTalking = JBool False, volume = Num 0\<rparr> (voiceStates s)\<rparr>)"
  by (simp add: addClient_def)

lemma dispatch_join_sm:
  "msg_type d = Str ''join'' \<Longrightarrow> addClient mx now ws (msg_gamertag d) (sm srv) = Inr s' \<Longrightarrow>
   sm (dispatch mx now ws d srv) = s'"
  by (simp add: dispatch_def Let_def)

lemma map_set_drops_old:
  "map_get k es = Some c \<Longrightarrow> distinct (map (\<lambda>e. f (snd e)) es) \<Longrightarrow> f v \<noteq> f c \<Longrightarrow>
   f c \<notin> set (map (\<lambda>e. f (snd e)) (map_set k v es))"
proof (induction es)
  case Nil
  then show ?case by simp
next
  case (Cons e es)
  show ?case
  proof (cases "fst e = k")
    case True
    with Cons.prems show ?thesis by auto
  next
    case False
    then have get: "map_get k es = Some c" using Cons.prems(1) by simp
    then have mem: "f c \<in> (\<lambda>e. f (snd e)) ` set es" by (force dest: map_get_mem)
    have "f (snd e) \<notin> (\<lambda>e. f (snd e)) ` set es" using Cons.prems(2) by simp
    with mem have "f (snd e) \<noteq> f c" by metis
    with False Cons.IH [OF get] Cons.prems show ?thesis by simp
  qed
qed

lemma removeClient_keeps_others:
  "identity_of ws t \<noteq> Some g \<Longrightarrow>
   map_get g (pttStates (removeClient ws t)) = map_get g (pttStates t) \<and>
   map_get g (voiceStates (removeClient ws t)) = map_get g (voiceStates t)"
  by (auto simp: removeClient_def identity_of_def map_get_map_delete split: option.splits)

text \<open>
  Claim C8 says that after a second join of a registered connection under a new identity
  the PTT and voice entries of its old identity are never removed by a later
  deregistration of that connection. They are removed when the connection has gone back
  to the old identity by then. Socket 2, registered as Bob, joins as Robert at time 5: the
  entries of Bob stay. It joins as Bob again at time 6, which is allowed since Bob is not
  taken, and sends leave at time 7: the removal deletes the entries of Bob, and those of
  Robert stay behind.
\<close>

theorem rejoin_counterexample:
  "identity_of 2 (sm alice_bob) = Some (Str ''Bob'')
   \<and> identity_of 2 (sm bob_robert) = Some (Str ''Robert'')
   \<and> map_get (Str ''Bob'') (pttStates (sm bob_robert)) =
       Some \<lparr>ptt_isTalking = JBool True, isMuted = JBool False\<rparr>
   \<and> map_get (Str ''Bob'') (voiceStates (sm bob_robert)) =
       Some \<lparr>isTalking = JBool False, volume = Num 0\<rparr>
   \<and> identity_of 2 (sm bob_robert_bob) = Some (Str ''Bob'')
   \<and> identity_of 2 (sm (on_message 200 7 2 (Parsed (msg_of_type ''leave'')) bob_robert_bob)) = None
   \<and> map_get (Str ''Bob'')
         (pttStates (sm (on_message 200 7 2 (Parsed (msg_of_type ''leave'')) bob_robert_bob))) = None
   \<and> map_get (Str ''Bob'')
         (voiceStates (sm (on_message 200 7 2 (Parsed (msg_of_type ''leave'')) bob_robert_bob))) = None
   \<and> map_get (Str ''Robert'')
         (pttStates (sm (on_message 200 7 2 (Parsed (msg_of_type ''leave'')) bob_robert_bob))) =
       Some \<lparr>ptt_isTalking = JBool True, isMuted = JBool False\<rparr>"
proof -
  have s1: "sm bob_robert =
     \<lparr>minecraftData = None,
      clients = [(1, \<lparr>gamertag = Str ''Alice'', joinedAt = 0, lastActivity = 0,
                     messageCount = 0\<rparr>),
                 (2, \<lparr>gamertag = Str ''Robert'', joinedAt = 5, lastActivity = 5,
                     messageCount = 0\<rparr>)],
      pttStates = [(Str ''Alice'', \<lparr>ptt_isTalking = JBool True, isMuted = JBool False\<rparr>),
                   (Str ''Bob'', \<lparr>ptt_isTalking = JBool True, isMuted = JBool False\<rparr>),
                   (Str ''Robert'', \<lparr>ptt_isTalking = JBool True, isMuted = JBool False\<rparr>)],
      voiceStates = [(Str ''Alice'', \<lparr>isTalking = JBool False, volume = Num 0\<rparr>),
                     (Str ''Bob'', \<lparr>isTalking = JBool False, volume = Num 0\<rparr>),
                     (Str ''Robert'', \<lparr>isTalking = JBool False, volume = Num 0\<rparr>)],
      rateLimits = [(1, \<lparr>count = 1, resetAt = 1000\<rparr>),
                    (2, \<lparr>count = 2, resetAt = 1001\<rparr>)]\<rparr>"
    unfolding bob_robert_def alice_bob_state by (simp add: handler_defs)
  have s2: "sm bob_robert_bob =
     \<lparr>minecraftData = None,
      clients = [(1, \<lparr>gamertag = Str ''Alice'', joinedAt = 0, lastActivity = 0,
                     messageCount = 0\<rparr>),
                 (2, \<lparr>gamertag = Str ''Bob'', joinedAt = 6, lastActivity = 6,
                     messageCount = 0\<rparr>)],
      pttStates = [(Str ''Alice'', \<lparr>ptt_isTalking = JBool True, isMuted = JBool False\<rparr>),
                   (Str ''Bob'', \<lparr>ptt_isTalking = JBool True, isMuted = JBool False\<rparr>),
                   (Str ''Robert'', \<lparr>ptt_isTalking = JBool True, isMuted = JBool False\<rparr>)],
      voiceStates = [(Str ''Alice'', \<lparr>isTalking = JBool False, volume = Num 0\<rparr>),
                     (Str ''Bob'', \<lparr>isTalking = JBool False, volume = Num 0\<rparr>),
                     (Str ''Robert'', \<lparr>isTalking = JBool False, volume = Num 0\<rparr>)],
      rateLimits = [(1, \<lparr>count = 1, resetAt = 1000\<rparr>),
                    (2, \<lparr>count = 3, resetAt = 1001\<rparr>)]\<rparr>"
    unfolding bob_robert_bob_def bob_robert_def alice_bob_state by (simp add: handler_defs)
  have s3: "sm (on_message 200 7 2 (Parsed (msg_of_type ''leave'')) bob_robert_bob) =
     \<lparr>minecraftData = None,
      clients = [(1, \<lparr>gamertag = Str ''Alice'', joinedAt = 0, lastActivity = 0,
                     messageCount = 0\<rparr>)],
      pttStates = [(Str ''Alice'', \<lparr>ptt_isTalking = JBool True, isMuted = JBool False\<rparr>),
                   (Str ''Robert'', \<lparr>ptt_isTalking = JBool True, isMuted = JBool False\<rparr>)],
      voiceStates = [(Str ''Alice'', \<lparr>isTalking = JBool False, volume = Num 0\<rparr>),
                     (Str ''Robert'', \<lparr>isTalking = JBool False, volume = Num 0\<rparr>)],
      rateLimits = [(1, \<lparr>count = 1, resetAt = 1000\<rparr>)]\<rparr>"
    unfolding bob_robert_bob_def bob_robert_def alice_bob_state by (simp add: handler_defs)
  show ?thesis
    unfolding s1 s2 s3 by (simp add: identity_of_def alice_bob_state)
qed

text \<open>
  Claim C8, amended. In a reachable state, let a registered connection send a join
  message, which the rate limiter allows, for another identity that is not taken, with
  the server below capacity. The entry of the connection then holds the new identity and
  the old identity is out of the identity list, while the PTT and voice entries of the
  old identity are still in the state store, unchanged. A removal of the connection,
  then or in any later state in which the connection is not registered under the old
  identity again, leaves these entries where they are: it deletes the entries of the
  identity the connection is registered under at that time.
\<close>

theorem rejoin_leaves_old_state:
  assumes "reachable mx srv" and "map_get ws (clients (sm srv)) = Some cd"
    and "msg_type d = Str ''join''" and "msg_gamertag d \<noteq> gamertag cd"
    and "\<not> isGamertagTaken (msg_gamertag d) (sm srv)"
    and "int (length (clients (sm srv))) < mx"
    and "fst (checkRateLimit now ws (sm srv))"
    and "srv' = on_message mx now ws (Parsed d) srv"
  shows "identity_of ws (sm srv') = Some (msg_gamertag d)
     \<and> gamertag cd \<notin> set (getParticipants (sm srv'))
     \<and> map_get (gamertag cd) (pttStates (sm srv')) \<noteq> None
     \<and> map_get (gamertag cd) (voiceStates (sm srv')) \<noteq> None
     \<and> map_get (gamertag cd) (pttStates (sm srv')) = map_get (gamertag cd) (pttStates (sm srv))
     \<and> map_get (gamertag cd) (voiceStates (sm srv')) = map_get (gamertag cd) (voiceStates (sm srv))
     \<and> map_get (gamertag cd) (pttStates (removeClient ws (sm srv'))) =
         map_get (gamertag cd) (pttStates (sm srv))
     \<and> map_get (gamertag cd) (voiceStates (removeClient ws (sm srv'))) =
         map_get (gamertag cd) (voiceStates (sm srv))
     \<and> (\<forall>t. identity_of ws t \<noteq> Some (gamertag cd) \<longrightarrow>
            map_get (gamertag cd) (pttStates (removeClient ws t)) = map_get (gamertag cd) (pttStates t)
          \<and> map_get (gamertag cd) (voiceStates (removeClient ws t)) =
              map_get (gamertag cd) (voiceStates t))"
proof -
  let ?old = "gamertag cd" and ?new = "msg_gamertag d"
  let ?pre = "before_dispatch now ws srv"
  let ?cd' = "cd\<lparr>lastActivity := now, messageCount := messageCount cd + 1\<rparr>"
  let ?s' = "(sm ?pre)\<lparr>clients := map_set ws
                \<lparr>gamertag = ?new, joinedAt = now, lastActivity = now, messageCount = 0\<rparr>
                (clients (sm ?pre)),
             pttStates := map_set ?new \<lparr>ptt_isTalking = JBool True, isMuted = JBool False\<rparr>
                (pttStates (sm ?pre)),
             voiceStates := map_set ?new \<lparr>isTalking = JBool False, volume = Num 0\<rparr>
                (voiceStates (sm ?pre))\<rparr>"
  have coherent: "coherent_core (sm srv) (vars srv)"
    using reachable_wf [OF assms(1)] by (simp add: coherent_def)
  have present: "map_get ?old (pttStates (sm srv)) \<noteq> None" "map_get ?old (voiceStates (sm srv)) \<noteq> None"
    using coherent assms(2) by (auto simp: coherent_core_def)
  have reg: "map_get ws (clients (sm ?pre)) = Some ?cd'"
    using assms(2) by (simp add: before_dispatch_get)
  have add: "addClient mx now ws ?new (sm ?pre) = Inr ?s'"
    using assms(5,6) by (simp add: addClient_free)
  have sm': "sm srv' = ?s'"
    using assms(7,8) dispatch_join_sm [OF assms(3) add] by (simp add: on_message_allowed)
  have id: "identity_of ws (sm srv') = Some ?new"
    by (simp add: sm' identity_of_def map_get_map_set)
  have d: "distinct (map (\<lambda>e. gamertag (snd e)) (clients (sm ?pre)))"
    using coherent before_dispatch_simps(5) [of now ws srv] by (simp add: coherent_core_def getParticipants_def)
  have gone: "?old \<notin> set (getParticipants (sm srv'))"
    using map_set_drops_old [of ws "clients (sm ?pre)" ?cd' gamertag
        "\<lparr>gamertag = ?new, joinedAt = now, lastActivity = now, messageCount = 0\<rparr>", OF reg d]
      assms(4)
    by (simp add: sm' getParticipants_def)
  have kept: "map_get ?old (pttStates (sm srv')) = map_get ?old (pttStates (sm srv))"
    "map_get ?old (voiceStates (sm srv')) = map_get ?old (voiceStates (sm srv))"
    using assms(4) by (simp_all add: sm' map_get_map_set)
  have "identity_of ws (sm srv') \<noteq> Some ?old" using id assms(4) by simp
  note after = removeClient_keeps_others [OF this]
  show ?thesis
    using id gone present kept after removeClient_keeps_others by simp
qed

theorem rejoin_leaves_old_state_witness:
  "reachable 200 alice_bob
   \<and> map_get 2 (clients (sm alice_bob)) =
       Some \<lparr>gamertag = Str ''Bob'', joinedAt = 1, lastActivity = 1, messageCount = 0\<rparr>
   \<and> Str ''Robert'' \<noteq> Str ''Bob''
   \<and> \<not> isGamertagTaken (Str ''Robert'') (sm alice_bob)
   \<and> int (length (clients (sm alice_bob))) < 200
   \<and> fst (checkRateLimit 5 2 (sm alice_bob))
   \<and> identity_of 2 (sm (on_message 200 5 2 (join_msg (Str ''Robert'')) alice_bob)) =
       Some (Str ''Robert'')
   \<and> Str ''Bob'' \<notin> set (getParticipants (sm (on_message 200 5 2 (join_msg (Str ''Robert'')) alice_bob)))
   \<and> map_get (Str ''Bob'') (pttStates (sm (on_message 200 5 2 (join_msg (Str ''Robert'')) alice_bob))) =
       Some \<lparr>ptt_isTalking = JBool True, isMuted = JBool False\<rparr>
   \<and> map_get (Str ''Bob'')
         (pttStates (removeClient 2 (sm (on_message 200 5 2 (join_msg (Str ''Robert'')) alice_bob)))) =
       Some \<lparr>ptt_isTalking = JBool True, isMuted = JBool False\<rparr>
   \<and> map_get (Str ''Bob'')
         (voiceStates (removeClient 2 (sm (on_message 200 5 2 (join_msg (Str ''Robert'')) alice_bob)))) =
       Some \<lparr>isTalking = JBool False, volume = Num 0\<rparr>"
proof -
  let ?cd = "\<lparr>gamertag = Str ''Bob'', joinedAt = 1, lastActivity = 1, messageCount = 0\<rparr>"
  let ?d = "(msg_of_type ''join'')\<lparr>msg_gamertag := Str ''Robert''\<rparr>"
  have h2: "map_get 2 (clients (sm alice_bob)) = Some ?cd" by (simp add: alice_bob_state)
  have h3: "msg_type ?d = Str ''join''" by (simp add: msg_of_type_def)
  have h4: "msg_gamertag ?d \<noteq> gamertag ?cd" by simp
  have h5: "\<not> isGamertagTaken (msg_gamertag ?d) (sm alice_bob)"
    by (simp add: alice_bob_state isGamertagTaken_def)
  have h6: "int (length (clients (sm alice_bob))) < 200" by (simp add: alice_bob_state)
  have h7: "fst (checkRateLimit 5 2 (sm alice_bob))" by (simp add: alice_bob_state handler_defs)
  have old: "map_get (Str ''Bob'') (pttStates (sm alice_bob)) =
               Some \<lparr>ptt_isTalking = JBool True, isMuted = JBool False\<rparr>"
            "map_get (Str ''Bob'') (voiceStates (sm alice_bob)) =
               Some \<lparr>isTalking = JBool False, volume = Num 0\<rparr>"
    by (simp_all add: alice_bob_state)
  note t = rejoin_leaves_old_state [OF reachable_alice_bob h2 h3 h4 h5 h6 h7 refl]
  show ?thesis
    using t h2 h5 h6 h7 old reachable_alice_bob by (simp add: join_msg_def)
qed

subsection \<open>The voice-detection and ptt-status branches\<close>

lemma dispatch_voice_detection:
  "msg_type d = Str ''voice-detection'' \<Longrightarrow>
   dispatch mx now ws d srv =
     srv\<lparr>sm := (sm srv)\<lparr>voiceStates :=
            map_set (msg_gamertag d)
              \<lparr>isTalking = msg_isTalking d, volume = js_or (msg_volume d) (Num 0)\<rparr>
              (voiceStates (sm srv))\<rparr>\<rparr>"
  by (simp add: dispatch_def)

lemma dispatch_ptt_status:
  "msg_type d = Str ''ptt-status'' \<Longrightarrow>
   dispatch mx now ws d srv =
     broadcastToAll (Ptt_update (msg_gamertag d) (msg_isTalking d) (msg_isMuted d))
       (srv\<lparr>sm := (sm srv)\<lparr>pttStates :=
              map_set (msg_gamertag d)
                \<lparr>ptt_isTalking = msg_isTalking d, isMuted = msg_isMuted d\<rparr>
                (pttStates (sm srv))\<rparr>\<rparr>)"
  by (simp add: dispatch_def Let_def)

lemma getParticipants_tables [simp]:
  "getParticipants (s\<lparr>voiceStates := v\<rparr>) = getParticipants s"
  "getParticipants (s\<lparr>pttStates := p\<rparr>) = getParticipants s"
  by (simp_all add: getParticipants_def)

text \<open>
  Claim C9. A voice-detection message that the rate limiter allows sets the voice entry
  of the identity the message names to the message's \<open>isTalking\<close> and to its volume
  (0 when the volume is falsy), and a ptt-status message sets the PTT entry of that
  identity to the message's \<open>isTalking\<close> and \<open>isMuted\<close> and broadcasts the update to
  every open socket. Neither branch asks whether the identity is registered or whether
  it is the sender's: nothing is assumed of the sender or of the identity. No other
  entry and no registration changes.
\<close>

theorem state_messages_upsert_any_identity:
  assumes "fst (checkRateLimit now ws (sm srv))" and "srv' = on_message mx now ws (Parsed d) srv"
  shows "(msg_type d = Str ''voice-detection'' \<longrightarrow>
            map_get (msg_gamertag d) (voiceStates (sm srv')) =
              Some \<lparr>isTalking = msg_isTalking d, volume = js_or (msg_volume d) (Num 0)\<rparr>
          \<and> (\<forall>g. g \<noteq> msg_gamertag d \<longrightarrow>
                 map_get g (voiceStates (sm srv')) = map_get g (voiceStates (sm srv)))
          \<and> pttStates (sm srv') = pttStates (sm srv)
          \<and> getParticipants (sm srv') = getParticipants (sm srv)
          \<and> wss_clients srv' = wss_clients srv)
       \<and> (msg_type d = Str ''ptt-status'' \<longrightarrow>
            map_get (msg_gamertag d) (pttStates (sm srv')) =
              Some \<lparr>ptt_isTalking = msg_isTalking d, isMuted = msg_isMuted d\<rparr>
          \<and> (\<forall>g. g \<noteq> msg_gamertag d \<longrightarrow>
                 map_get g (pttStates (sm srv')) = map_get g (pttStates (sm srv)))
          \<and> voiceStates (sm srv') = voiceStates (sm srv)
          \<and> getParticipants (sm srv') = getParticipants (sm srv)
          \<and> (\<forall>c. socket_of c srv' =
                 map_option
                   (\<lambda>k. if readyState k = 1
                        then k\<lparr>sent := sent k @ [Ptt_update (msg_gamertag d) (msg_isTalking d)
                                                    (msg_isMuted d)]\<rparr>
                        else k)
                   (socket_of c srv)))"
proof (intro conjI impI)
  assume v: "msg_type d = Str ''voice-detection''"
  have srv': "srv' = (before_dispatch now ws srv)\<lparr>sm := (sm (before_dispatch now ws srv))\<lparr>voiceStates :=
            map_set (msg_gamertag d)
              \<lparr>isTalking = msg_isTalking d, volume = js_or (msg_volume d) (Num 0)\<rparr>
              (voiceStates (sm (before_dispatch now ws srv)))\<rparr>\<rparr>"
    using assms v by (simp add: on_message_allowed dispatch_voice_detection)
  show "map_get (msg_gamertag d) (voiceStates (sm srv')) =
              Some \<lparr>isTalking = msg_isTalking d, volume = js_or (msg_volume d) (Num 0)\<rparr>"
    by (simp add: srv' map_get_map_set)
  show "\<forall>g. g \<noteq> msg_gamertag d \<longrightarrow>
                 map_get g (voiceStates (sm srv')) = map_get g (voiceStates (sm srv))"
    by (simp add: srv' map_get_map_set)
  show "pttStates (sm srv') = pttStates (sm srv)" by (simp add: srv')
  show "getParticipants (sm srv') = getParticipants (sm srv)" by (simp add: srv')
  show "wss_clients srv' = wss_clients srv" by (simp add: srv')
next
  assume p: "msg_type d = Str ''ptt-status''"
  have srv': "srv' = broadcastToAll (Ptt_update (msg_gamertag d) (msg_isTalking d) (msg_isMuted d))
       ((before_dispatch now ws srv)\<lparr>sm := (sm (before_dispatch now ws srv))\<lparr>pttStates :=
              map_set (msg_gamertag d)
                \<lparr>ptt_isTalking = msg_isTalking d, isMuted = msg_isMuted d\<rparr>
                (pttStates (sm (before_dispatch now ws srv)))\<rparr>\<rparr>)"
    using assms p by (simp add: on_message_allowed dispatch_ptt_status)
  show "map_get (msg_gamertag d) (pttStates (sm srv')) =
              Some \<lparr>ptt_isTalking = msg_isTalking d, isMuted = msg_isMuted d\<rparr>"
    by (simp add: srv' map_get_map_set)
  show "\<forall>g. g \<noteq> msg_gamertag d \<longrightarrow>
                 map_get g (pttStates (sm srv')) = map_get g (pttStates (sm srv))"
    by (simp add: srv' map_get_map_set)
  show "voiceStates (sm srv') = voiceStates (sm srv)" by (simp add: srv')
  show "getParticipants (sm srv') = getParticipants (sm srv)" by (simp add: srv')
  show "\<forall>c. socket_of c srv' =
                 map_option
                   (\<lambda>k. if readyState k = 1
                        then k\<lparr>sent := sent k @ [Ptt_update (msg_gamertag d) (msg_isTalking d)
                                                    (msg_isMuted d)]\<rparr>
                        else k)
                   (socket_of c srv)"
    by (simp add: srv' socket_of_ops)
qed

text \<open>
  The witness shows the two consequences of the claim: on a server where nobody is
  registered, a ptt-status message for \<open>Ghost\<close> leaves a PTT entry for an identity with
  no participant; and Bob's voice-detection message for \<open>Alice\<close> overwrites her entry.
\<close>

theorem state_messages_upsert_any_identity_witness:
  "fst (checkRateLimit 0 1 (sm two_sockets))
   \<and> reachable 200 (on_message 200 0 1
         (Parsed ((msg_of_type ''ptt-status'')
            \<lparr>msg_gamertag := Str ''Ghost'', msg_isTalking := JBool True, msg_isMuted := JBool False\<rparr>))
         two_sockets)
   \<and> getParticipants (sm (on_message 200 0 1
         (Parsed ((msg_of_type ''ptt-status'')
            \<lparr>msg_gamertag := Str ''Ghost'', msg_isTalking := JBool True, msg_isMuted := JBool False\<rparr>))
         two_sockets)) = []
   \<and> map_get (Str ''Ghost'') (pttStates (sm (on_message 200 0 1
         (Parsed ((msg_of_type ''ptt-status'')
            \<lparr>msg_gamertag := Str ''Ghost'', msg_isTalking := JBool True, msg_isMuted := JBool False\<rparr>))
         two_sockets))) = Some \<lparr>ptt_isTalking = JBool True, isMuted = JBool False\<rparr>
   \<and> fst (checkRateLimit 5 2 (sm alice_bob))
   \<and> identity_of 2 (sm alice_bob) = Some (Str ''Bob'')
   \<and> map_get (Str ''Alice'') (voiceStates (sm alice_bob)) =
       Some \<lparr>isTalking = JBool False, volume = Num 0\<rparr>
   \<and> map_get (Str ''Alice'') (voiceStates (sm (on_message 200 5 2
         (Parsed ((msg_of_type ''voice-detection'')
            \<lparr>msg_gamertag := Str ''Alice'', msg_isTalking := JBool True, msg_volume := Num (- 12)\<rparr>))
         alice_bob))) = Some \<lparr>isTalking = JBool True, volume = Num (- 12)\<rparr>"
proof -
  let ?p = "(msg_of_type ''ptt-status'')
      \<lparr>msg_gamertag := Str ''Ghost'', msg_isTalking := JBool True, msg_isMuted := JBool False\<rparr>"
  let ?v = "(msg_of_type ''voice-detection'')
      \<lparr>msg_gamertag := Str ''Alice'', msg_isTalking := JBool True, msg_volume := Num (- 12)\<rparr>"
  have a1: "fst (checkRateLimit 0 1 (sm two_sockets))"
    by (simp add: two_sockets_state handler_defs)
  have a2: "fst (checkRateLimit 5 2 (sm alice_bob))"
    by (simp add: alice_bob_state handler_defs)
  have r: "reachable 200 (on_message 200 0 1 (Parsed ?p) two_sockets)"
    by (rule reachable.message [OF reachable_two_sockets,
          where k = "\<lparr>readyState = 1, sent = [], closed_with = None, gamertag_var = Null\<rparr>"])
       (simp_all add: two_sockets_state socket_of_def)
  have e: "getParticipants (sm two_sockets) = []"
    "identity_of 2 (sm alice_bob) = Some (Str ''Bob'')"
    "map_get (Str ''Alice'') (voiceStates (sm alice_bob)) =
       Some \<lparr>isTalking = JBool False, volume = Num 0\<rparr>"
    by (simp_all add: two_sockets_state alice_bob_state new_StateManager_def getParticipants_def
          identity_of_def)
  have t: "msg_type ?p = Str ''ptt-status''" "msg_type ?v = Str ''voice-detection''"
    by (simp_all add: msg_of_type_def)
  note g = state_messages_upsert_any_identity [where mx = 200 and d = ?p, OF a1 refl,
      THEN conjunct2, THEN mp, OF t(1)]
  note o = state_messages_upsert_any_identity [where mx = 200 and d = ?v, OF a2 refl,
      THEN conjunct1, THEN mp, OF t(2)]
  show ?thesis
    using a1 a2 r e g o by (simp add: js_or_def)
qed

end
